theory Spec2Isabelle
  imports Complex_Main "HOL-Library.AList" "HOL-Library.Log_Nat"
begin

section \<open>Personal Finance Assistant API: values, documents and errors\<close>

text \<open>
  The backend (\<^verbatim>\<open>main.py\<close>, \<^verbatim>\<open>schemas.py\<close>) keeps transactions, budgets and chat messages as
  documents of a document store and answers over HTTP. A document is a Python \<^verbatim>\<open>dict\<close> from
  field names to dynamically typed values, so a field can be absent or hold a value of any
  kind; the handlers read them with \<^verbatim>\<open>d.get(k, default)\<close>, \<^verbatim>\<open>d[k]\<close> and \<^verbatim>\<open>k in d\<close>.

  Modelling conventions:
  \<^item> a string is a list of characters, a character being a code point below 256 (the
    Latin-1 part of Python's \<^verbatim>\<open>str\<close>);
  \<^item> a number is a Python \<^verbatim>\<open>float\<close>, given by its exact value, a rational; every addition
    and subtraction of the source rounds its result to the nearest float (see below);
  \<^item> every raise of the source is a value \<open>Inl e\<close> of the result type.
\<close>

record datetime =
  dt_year :: int
  dt_month :: int
  dt_day :: int
  dt_hour :: int
  dt_minute :: int
  dt_second :: int
  dt_microsecond :: int

datatype pyval =
    VNum rat
  | VStr string
  | VDate datetime
  | VOid nat
  | VNone

type_synonym document = "string \<rightharpoonup> pyval"

text \<open>
  The exceptions the handlers can meet. \<open>HTTPException status e\<close> is FastAPI's exception
  with \<^verbatim>\<open>detail=str(e)\<close>: the model keeps the exception \<open>e\<close> whose text the detail carries.
\<close>

datatype exn =
    IntLiteralError string
  | UnpackError nat
  | DateRangeError string
  | StrptimeError string
  | KeyError string
  | TypeError
  | FormatError
  | StoreError string
  | ValidationError
  | HTTPException nat exn

subsection \<open>Python string primitives\<close>

text \<open>\<^verbatim>\<open>sub in s\<close> on strings: \<open>sub\<close> occurs in \<open>s\<close> as a contiguous block.\<close>

fun contains :: "string \<Rightarrow> string \<Rightarrow> bool" where
  "contains sub [] = (sub = [])"
| "contains sub (c # cs) = (take (length sub) (c # cs) = sub \<or> contains sub cs)"

text \<open>
  \<^verbatim>\<open>str.lower()\<close>: the letters \<^verbatim>\<open>A\<close> to \<^verbatim>\<open>Z\<close>, and the capital letters of Latin-1 (the code
  points 192 to 222 but the multiplication sign 215), move to the small letter 32 places on.
\<close>

definition lower_char :: "char \<Rightarrow> char" where
  "lower_char c =
     (case map_of (zip ''ABCDEFGHIJKLMNOPQRSTUVWXYZ'' ''abcdefghijklmnopqrstuvwxyz'') c of
        Some d \<Rightarrow> d
      | None \<Rightarrow>
          (let n = (of_char c :: nat)
           in if 192 \<le> n \<and> n \<le> 222 \<and> n \<noteq> 215 then char_of (n + 32) else c))"

definition lower :: "string \<Rightarrow> string" where
  "lower s = map lower_char s"

text \<open>\<^verbatim>\<open>s.split(sep)\<close> for a one-character separator: never the empty list.\<close>

fun split_on :: "char \<Rightarrow> string \<Rightarrow> string list" where
  "split_on sep [] = [[]]"
| "split_on sep (c # cs) =
     (if c = sep then [] # split_on sep cs
      else (case split_on sep cs of
              [] \<Rightarrow> [[c]]
            | p # ps \<Rightarrow> (c # p) # ps))"

text \<open>\<^verbatim>\<open>sep.join(parts)\<close>.\<close>

fun join :: "string \<Rightarrow> string list \<Rightarrow> string" where
  "join sep [] = []"
| "join sep [p] = p"
| "join sep (p # q # ps) = p @ sep @ join sep (q # ps)"

definition is_digit :: "char \<Rightarrow> bool" where
  "is_digit c = (c \<in> set ''0123456789'')"

definition digit_val :: "char \<Rightarrow> int" where
  "digit_val c =
     (case map_of (zip ''0123456789'' [0, 1, 2, 3, 4, 5, 6, 7, 8, 9]) c of
        Some n \<Rightarrow> n
      | None \<Rightarrow> 0)"

definition digit_char :: "nat \<Rightarrow> char" where
  "digit_char n = ''0123456789'' ! (n mod 10)"

text \<open>
  The characters \<^verbatim>\<open>int()\<close> skips around a literal: tab, line feed, vertical tab, form feed,
  carriage return and the space, and the two spaces of Latin-1 beyond ASCII, next line
  (\<^verbatim>\<open>\x85\<close>) and no-break space (\<^verbatim>\<open>\xa0\<close>), which \<^verbatim>\<open>int()\<close> turns into a space first. The
  separators \<^verbatim>\<open>\x1c\<close> to \<^verbatim>\<open>\x1f\<close> are not skipped.
\<close>

definition is_space :: "char \<Rightarrow> bool" where
  "is_space c = ((of_char c :: nat) \<in> {9, 10, 11, 12, 13, 32, 133, 160})"

definition strip :: "string \<Rightarrow> string" where
  "strip s = rev (dropWhile is_space (rev (dropWhile is_space s)))"

text \<open>
  The digits of a decimal literal, read after the first one was seen to be a digit: a single
  underscore may stand between two digits.
\<close>

fun int_digits :: "int \<Rightarrow> string \<Rightarrow> int option" where
  "int_digits acc [] = Some acc"
| "int_digits acc [c] = (if is_digit c then Some (acc * 10 + digit_val c) else None)"
| "int_digits acc (c # d # cs) =
     (if is_digit c then int_digits (acc * 10 + digit_val c) (d # cs)
      else if c = CHR ''_'' \<and> is_digit d then int_digits acc (d # cs)
      else None)"

text \<open>
  \<^verbatim>\<open>int(s)\<close> in base 10: \<open>None\<close> where Python raises \<^verbatim>\<open>ValueError\<close>. A literal of more than
  4300 digits is refused (the interpreter's limit on the conversion of strings to integers).
\<close>

definition py_int :: "string \<Rightarrow> int option" where
  "py_int s =
     (let t = strip s;
          neg = (case t of [] \<Rightarrow> False | c # _ \<Rightarrow> c = CHR ''-'');
          u = (case t of [] \<Rightarrow> [] | c # r \<Rightarrow> if c = CHR ''-'' \<or> c = CHR ''+'' then r else t)
      in case u of
           [] \<Rightarrow> None
         | c # _ \<Rightarrow>
             if is_digit c \<and> length (filter is_digit u) \<le> 4300
             then map_option (\<lambda>n. if neg then - n else n) (int_digits 0 u)
             else None)"

text \<open>Decimal digits of a natural number, and the same padded with zeros to a width.\<close>

fun dec :: "nat \<Rightarrow> string" where
  "dec n = (if n < 10 then [digit_char n] else dec (n div 10) @ [digit_char n])"

definition zpad :: "nat \<Rightarrow> string \<Rightarrow> string" where
  "zpad w s = replicate (w - length s) (CHR ''0'') @ s"

subsection \<open>Python floats\<close>

text \<open>
  A \<^verbatim>\<open>float\<close> is a binary number with 53 significant bits. The sum of two floats is the float
  nearest to the exact sum, a tie going to the neighbour whose last bit is 0: the exact value
  \<open>x\<close>, of the binade \<open>2 powi e \<le> \<bar>x\<bar> < 2 powi (e + 1)\<close>, is rounded to a multiple of
  \<open>2 powi (e - 52)\<close>. The range of the exponent is not bounded here: overflow to infinity and
  the subnormal numbers are left out, as are infinities and NaN.
\<close>

definition round_half_even :: "rat \<Rightarrow> int" where
  "round_half_even x =
     (let f = \<lfloor>x\<rfloor>; r = x - of_int f
      in if r < 1 / 2 then f
         else if 1 / 2 < r then f + 1
         else if even f then f
         else f + 1)"

text \<open>The exponent \<open>e\<close> of the binade of a positive number, from the bit lengths of its
  numerator and denominator.\<close>

definition ilog2 :: "rat \<Rightarrow> int" where
  "ilog2 x =
     (case quotient_of x of
        (p, q) \<Rightarrow> (let e = bitlen p - bitlen q in if 2 powi e \<le> x then e else e - 1))"

definition float_round :: "rat \<Rightarrow> rat" where
  "float_round x =
     (if x = 0 then 0
      else (let u = 2 powi (ilog2 \<bar>x\<bar> - 52)
            in sgn x * of_int (round_half_even (\<bar>x\<bar> / u)) * u))"

text \<open>\<^verbatim>\<open>x + y\<close> and \<^verbatim>\<open>x - y\<close> on floats.\<close>

definition fadd :: "rat \<Rightarrow> rat \<Rightarrow> rat" where
  "fadd x y = float_round (x + y)"

definition fsub :: "rat \<Rightarrow> rat \<Rightarrow> rat" where
  "fsub x y = float_round (x - y)"

subsection \<open>Calendar dates\<close>

definition is_leap :: "int \<Rightarrow> bool" where
  "is_leap y = (if y mod 4 = 0 then (if y mod 100 = 0 then y mod 400 = 0 else True) else False)"

definition days_in_month :: "int \<Rightarrow> int \<Rightarrow> int" where
  "days_in_month y m =
     (if m = 2 then (if is_leap y then 29 else 28)
      else if m = 4 \<or> m = 6 \<or> m = 9 \<or> m = 11 then 30
      else 31)"

text \<open>The instant at which a day begins.\<close>

definition midnight :: "int \<Rightarrow> int \<Rightarrow> int \<Rightarrow> datetime" where
  "midnight y m d =
     \<lparr>dt_year = y, dt_month = m, dt_day = d, dt_hour = 0, dt_minute = 0, dt_second = 0,
      dt_microsecond = 0\<rparr>"

text \<open>
  \<^verbatim>\<open>datetime(year, month, day)\<close>: the constructor checks the year (\<^verbatim>\<open>MINYEAR = 1\<close>,
  \<^verbatim>\<open>MAXYEAR = 9999\<close>), then the month, then the day, and raises \<^verbatim>\<open>ValueError\<close>; the time of
  day is midnight.
\<close>

definition datetime_ymd :: "int \<Rightarrow> int \<Rightarrow> int \<Rightarrow> exn + datetime" where
  "datetime_ymd y m d =
     (if y < 1 \<or> 9999 < y then Inl (DateRangeError ''year'')
      else if m < 1 \<or> 12 < m then Inl (DateRangeError ''month'')
      else if d < 1 \<or> days_in_month y m < d then Inl (DateRangeError ''day'')
      else Inr (midnight y m d))"

text \<open>Datetimes compare field by field, the year first.\<close>

definition dt_key :: "datetime \<Rightarrow> int list" where
  "dt_key t = [dt_year t, dt_month t, dt_day t, dt_hour t, dt_minute t, dt_second t,
               dt_microsecond t]"

fun lex_less :: "int list \<Rightarrow> int list \<Rightarrow> bool" where
  "lex_less (x # xs) (y # ys) = (x < y \<or> (x = y \<and> lex_less xs ys))"
| "lex_less _ _ = False"

definition dt_less :: "datetime \<Rightarrow> datetime \<Rightarrow> bool" where
  "dt_less a b = lex_less (dt_key a) (dt_key b)"

definition dt_le :: "datetime \<Rightarrow> datetime \<Rightarrow> bool" where
  "dt_le a b = (\<not> dt_less b a)"

subsection \<open>The month of a summary request\<close>

text \<open>
  \<^verbatim>\<open>year, m = map(int, month.split("-"))\<close> (\<^verbatim>\<open>main.py\<close>, line 100). Unpacking draws the
  converted parts one at a time: each \<^verbatim>\<open>int\<close> can raise before the count of the parts is
  known to be wrong, and a third part is converted before "too many values" is raised.
\<close>

definition parse_month :: "string \<Rightarrow> exn + (int \<times> int)" where
  "parse_month month =
     (case split_on (CHR ''-'') month of
        [] \<Rightarrow> Inl (UnpackError 0)
      | a # rest \<Rightarrow>
          (case py_int a of
             None \<Rightarrow> Inl (IntLiteralError a)
           | Some y \<Rightarrow>
               (case rest of
                  [] \<Rightarrow> Inl (UnpackError 1)
                | b # rest' \<Rightarrow>
                    (case py_int b of
                       None \<Rightarrow> Inl (IntLiteralError b)
                     | Some m \<Rightarrow>
                         (case rest' of
                            [] \<Rightarrow> Inr (y, m)
                          | c # _ \<Rightarrow>
                              (case py_int c of
                                 None \<Rightarrow> Inl (IntLiteralError c)
                               | Some _ \<Rightarrow> Inl (UnpackError (length (a # rest)))))))))"

text \<open>
  Lines 100 to 105 of \<^verbatim>\<open>summary\<close>: the first instant of the month and the first instant of
  the month after it, December rolling over to January of the next year.
\<close>

definition month_range :: "string \<Rightarrow> exn + (datetime \<times> datetime)" where
  "month_range month =
     (case parse_month month of
        Inl e \<Rightarrow> Inl e
      | Inr (y, m) \<Rightarrow>
          (case datetime_ymd y m 1 of
             Inl e \<Rightarrow> Inl e
           | Inr start \<Rightarrow>
               (case (if m = 12 then datetime_ymd (y + 1) 1 1 else datetime_ymd y (m + 1) 1) of
                  Inl e \<Rightarrow> Inl e
                | Inr end' \<Rightarrow> Inr (start, end'))))"

section \<open>The document store adapter\<close>

text \<open>
  The module \<^verbatim>\<open>database\<close> (\<^verbatim>\<open>db\<close>, \<^verbatim>\<open>create_document\<close>, \<^verbatim>\<open>get_documents\<close>) is imported by
  \<^verbatim>\<open>main.py\<close> and is not among the sources. Its two primitives are modelled from the
  specification, section 4.1.

  The store holds named collections, each a sequence of documents in the order a fetch
  returns them, and the counter of its generated identifiers. Whether the store can be
  reached is not under the program's control: \<open>outages\<close> lists, for the adapter calls still
  to come, whether the call raises (\<open>Some text\<close>) or goes through (\<open>None\<close>); past the end of
  the list every call goes through.
\<close>

record store =
  collections :: "string \<Rightarrow> document list"
  next_id :: nat
  outages :: "string option list"

text \<open>A filter gives, by field name, an exact value or a half-open range of datetimes
  (\<^verbatim>\<open>{"$gte": lo, "$lt": hi}\<close>).\<close>

datatype cond = Eq pyval | Range datetime datetime

type_synonym filter_spec = "(string \<times> cond) list"

text \<open>The field holds a datetime of the half-open interval from \<open>lo\<close> to \<open>hi\<close>.\<close>

definition in_range :: "datetime \<Rightarrow> datetime \<Rightarrow> pyval option \<Rightarrow> bool" where
  "in_range lo hi field =
     (case field of
        Some (VDate t) \<Rightarrow> dt_le lo t \<and> dt_less t hi
      | _ \<Rightarrow> False)"

fun holds :: "document \<Rightarrow> string \<times> cond \<Rightarrow> bool" where
  "holds d (k, Eq v) = (d k = Some v)"
| "holds d (k, Range lo hi) = in_range lo hi (d k)"

definition matches :: "filter_spec \<Rightarrow> document \<Rightarrow> bool" where
  "matches flt d = list_all (holds d) flt"

text \<open>One adapter call meets the next entry of the outage schedule.\<close>

definition reach :: "store \<Rightarrow> string option \<times> store" where
  "reach st =
     (case outages st of
        [] \<Rightarrow> (None, st)
      | out # later \<Rightarrow> (out, st\<lparr>outages := later\<rparr>))"

text \<open>
  Modelled from the spec: \<^verbatim>\<open>get_documents(collection, filter, limit)\<close> of the missing module
  \<^verbatim>\<open>database\<close>: the documents of the collection that match the filter, at most \<open>limit\<close> of
  them when a limit is given; the store's error is propagated when it cannot be reached.
\<close>

definition get_documents ::
  "string \<Rightarrow> filter_spec \<Rightarrow> int option \<Rightarrow> store \<Rightarrow> (exn + document list) \<times> store" where
  "get_documents name flt limit st =
     (case reach st of
        (Some msg, st') \<Rightarrow> (Inl (StoreError msg), st')
      | (None, st') \<Rightarrow>
          (let found = filter (matches flt) (collections st' name)
           in (Inr (case limit of None \<Rightarrow> found | Some n \<Rightarrow> take (nat n) found), st')))"

text \<open>
  Modelled from the spec: \<^verbatim>\<open>create_document(collection, document)\<close> of the missing module
  \<^verbatim>\<open>database\<close>: the document is appended to the collection under a fresh store-generated
  identifier (its \<^verbatim>\<open>_id\<close>), which is returned; the store's error is propagated when it cannot
  be reached, and nothing is stored then.
\<close>

definition create_document :: "string \<Rightarrow> document \<Rightarrow> store \<Rightarrow> (exn + pyval) \<times> store" where
  "create_document name doc st =
     (case reach st of
        (Some msg, st') \<Rightarrow> (Inl (StoreError msg), st')
      | (None, st') \<Rightarrow>
          (let oid = VOid (next_id st')
           in (Inr oid,
               st'\<lparr>collections := (collections st')(name := collections st' name @ [doc(''_id'' \<mapsto> oid)]),
                   next_id := Suc (next_id st')\<rparr>)))"

section \<open>The aggregation of \<^verbatim>\<open>summary\<close>\<close>

text \<open>
  A Python \<^verbatim>\<open>dict\<close> that is iterated later keeps its keys in the order of their first
  insertion; assigning to a key it has replaces the value in place. It is an association
  list with \<^const>\<open>AList.update\<close>; \<^verbatim>\<open>m.get(k, dflt)\<close> is \<open>dict_get\<close>.
\<close>

definition dict_get :: "('k \<times> 'v) list \<Rightarrow> 'k \<Rightarrow> 'v \<Rightarrow> 'v" where
  "dict_get m k dflt = (case map_of m k of None \<Rightarrow> dflt | Some v \<Rightarrow> v)"

text \<open>
  \<^verbatim>\<open>acc + d.get("amount", 0)\<close>, an addition of floats: a value that is not a number cannot be
  added to one.
\<close>

definition add_amount :: "rat \<Rightarrow> document \<Rightarrow> exn + rat" where
  "add_amount acc d =
     (case d ''amount'' of
        None \<Rightarrow> Inr (fadd acc 0)
      | Some (VNum a) \<Rightarrow> Inr (fadd acc a)
      | Some _ \<Rightarrow> Inl TypeError)"

text \<open>
  \<^verbatim>\<open>sum(d.get("amount", 0) for d in docs if d.get("type") == ty)\<close> (lines 108 and 109), with
  the running total \<open>acc\<close>, which starts at 0: the items are added to the total one after the
  other, each addition rounding. (From version 3.12 on, \<^verbatim>\<open>sum\<close> carries the rounding errors
  of a run of floats along and adds them at the end; the two agree wherever no addition
  rounds.)
\<close>

fun sum_amounts :: "string \<Rightarrow> rat \<Rightarrow> document list \<Rightarrow> exn + rat" where
  "sum_amounts ty acc [] = Inr acc"
| "sum_amounts ty acc (d # ds) =
     (if d ''type'' = Some (VStr ty)
      then (case add_amount acc d of
              Inl e \<Rightarrow> Inl e
            | Inr acc' \<Rightarrow> sum_amounts ty acc' ds)
      else sum_amounts ty acc ds)"

text \<open>The loop of lines 111 to 114 over the fetched documents, \<open>by_cat\<close> being the dict so far.\<close>

fun by_cat_loop :: "(pyval \<times> rat) list \<Rightarrow> document list \<Rightarrow> exn + (pyval \<times> rat) list" where
  "by_cat_loop by_cat [] = Inr by_cat"
| "by_cat_loop by_cat (d # ds) =
     (if d ''type'' = Some (VStr ''expense'')
      then (let cat = (case d ''category'' of None \<Rightarrow> VStr ''Other'' | Some c \<Rightarrow> c)
            in case add_amount (dict_get by_cat cat 0) d of
                 Inl e \<Rightarrow> Inl e
               | Inr v \<Rightarrow> by_cat_loop (AList.update cat v by_cat) ds)
      else by_cat_loop by_cat ds)"

text \<open>
  The loop of lines 118 and 119, \<^verbatim>\<open>budgets[b["category"]] = b["limit"]\<close>, \<open>acc\<close> being the
  dict \<^verbatim>\<open>budgets\<close> so far: Python evaluates the right-hand side first, so a document with
  neither field raises for \<^verbatim>\<open>limit\<close>.
\<close>

fun budgets_loop :: "(pyval \<times> pyval) list \<Rightarrow> document list \<Rightarrow> exn + (pyval \<times> pyval) list" where
  "budgets_loop acc [] = Inr acc"
| "budgets_loop acc (b # bs) =
     (case b ''limit'' of
        None \<Rightarrow> Inl (KeyError ''limit'')
      | Some lm \<Rightarrow>
          (case b ''category'' of
             None \<Rightarrow> Inl (KeyError ''category'')
           | Some cat \<Rightarrow> budgets_loop (AList.update cat lm acc) bs))"

record summary_result =
  income :: rat
  expense :: rat
  net :: rat
  categories :: "(pyval \<times> rat) list"
  budgets :: "(pyval \<times> pyval) list"

text \<open>Lines 108 to 114: the two totals and the breakdown by category of the fetched transactions.\<close>

definition aggregate :: "document list \<Rightarrow> exn + (rat \<times> rat \<times> (pyval \<times> rat) list)" where
  "aggregate docs =
     (case sum_amounts ''income'' 0 docs of
        Inl e \<Rightarrow> Inl e
      | Inr income_total \<Rightarrow>
          (case sum_amounts ''expense'' 0 docs of
             Inl e \<Rightarrow> Inl e
           | Inr expense_total \<Rightarrow>
               (case by_cat_loop [] docs of
                  Inl e \<Rightarrow> Inl e
                | Inr by_cat \<Rightarrow> Inr (income_total, expense_total, by_cat))))"

text \<open>
  The additions that the two computations of the expenses make, and whether all of them are
  exact: \<open>exact_total\<close> follows the sum of line 109 and \<open>exact_by_cat\<close> the loop of lines 111 to
  114, each with the exact sum in place of the rounded one. \<open>amount_or_zero\<close> is the number
  that a document adds.
\<close>

definition amount_or_zero :: "document \<Rightarrow> rat" where
  "amount_or_zero d = (case d ''amount'' of Some (VNum a) \<Rightarrow> a | _ \<Rightarrow> 0)"

fun exact_total :: "string \<Rightarrow> rat \<Rightarrow> document list \<Rightarrow> bool" where
  "exact_total ty acc [] = True"
| "exact_total ty acc (d # ds) =
     (if d ''type'' = Some (VStr ty)
      then fadd acc (amount_or_zero d) = acc + amount_or_zero d \<and>
           exact_total ty (acc + amount_or_zero d) ds
      else exact_total ty acc ds)"

fun exact_by_cat :: "(pyval \<times> rat) list \<Rightarrow> document list \<Rightarrow> bool" where
  "exact_by_cat by_cat [] = True"
| "exact_by_cat by_cat (d # ds) =
     (if d ''type'' = Some (VStr ''expense'')
      then (let cat = (case d ''category'' of None \<Rightarrow> VStr ''Other'' | Some c \<Rightarrow> c);
                old = dict_get by_cat cat 0
            in fadd old (amount_or_zero d) = old + amount_or_zero d \<and>
               exact_by_cat (AList.update cat (old + amount_or_zero d) by_cat) ds)
      else exact_by_cat by_cat ds)"

text \<open>The filters of lines 97 to 106 and of line 116; \<^verbatim>\<open>if month\<close> is false for the empty string.\<close>

fun month_filter :: "string option \<Rightarrow> exn + filter_spec" where
  "month_filter None = Inr []"
| "month_filter (Some m) =
     (if m = [] then Inr []
      else (case month_range m of
              Inl e \<Rightarrow> Inl e
            | Inr (start, end') \<Rightarrow> Inr [(''date'', Range start end')]))"

fun budget_filter :: "string option \<Rightarrow> filter_spec" where
  "budget_filter None = []"
| "budget_filter (Some m) = (if m = [] then [] else [(''month'', Eq (VStr m))])"

text \<open>
  The body of \<^verbatim>\<open>summary\<close> inside its \<^verbatim>\<open>try\<close> (lines 97 to 126), statement by statement: an
  exception leaves the statements after it undone.
\<close>

definition summary_body :: "string option \<Rightarrow> store \<Rightarrow> (exn + summary_result) \<times> store" where
  "summary_body month st =
     (case month_filter month of
        Inl e \<Rightarrow> (Inl e, st)
      | Inr flt \<Rightarrow>
          (case get_documents ''transaction'' flt None st of
             (Inl e, st1) \<Rightarrow> (Inl e, st1)
           | (Inr docs, st1) \<Rightarrow>
               (case aggregate docs of
                  Inl e \<Rightarrow> (Inl e, st1)
                | Inr (income_total, expense_total, by_cat) \<Rightarrow>
                    (case get_documents ''budget'' (budget_filter month) None st1 of
                       (Inl e, st2) \<Rightarrow> (Inl e, st2)
                     | (Inr budget_docs, st2) \<Rightarrow>
                         (case budgets_loop [] budget_docs of
                            Inl e \<Rightarrow> (Inl e, st2)
                          | Inr budget_map \<Rightarrow>
                              (Inr \<lparr>income = income_total, expense = expense_total,
                                    net = fsub income_total expense_total,
                                    categories = by_cat, budgets = budget_map\<rparr>, st2))))))"

text \<open>\<^verbatim>\<open>except Exception as e: raise HTTPException(status_code=500, detail=str(e))\<close>.\<close>

definition server_error :: "(exn + 'a) \<times> store \<Rightarrow> (exn + 'a) \<times> store" where
  "server_error r =
     (case r of
        (Inl e, st) \<Rightarrow> (Inl (HTTPException 500 e), st)
      | (Inr v, st) \<Rightarrow> (Inr v, st))"

text \<open>GET \<^verbatim>\<open>/api/summary\<close>.\<close>

definition summary :: "string option \<Rightarrow> store \<Rightarrow> (exn + summary_result) \<times> store" where
  "summary month st = server_error (summary_body month st)"

section \<open>The listings\<close>

text \<open>
  \<^verbatim>\<open>str(v)\<close> and \<^verbatim>\<open>f"{v}"\<close>: a string is its own text. The text of a number, a datetime, an
  identifier of the store or \<^verbatim>\<open>None\<close> is the one the Python runtime and the store's driver
  give it: the parameter \<open>render\<close>.
\<close>

definition py_str :: "(pyval \<Rightarrow> string) \<Rightarrow> pyval \<Rightarrow> string" where
  "py_str render v = (case v of VStr s \<Rightarrow> s | _ \<Rightarrow> render v)"

text \<open>\<^verbatim>\<open>d.date().isoformat()\<close>: the date as \<^verbatim>\<open>YYYY-MM-DD\<close>.\<close>

definition iso_date :: "datetime \<Rightarrow> string" where
  "iso_date t =
     zpad 4 (dec (nat (dt_year t))) @ ''-'' @ zpad 2 (dec (nat (dt_month t))) @ ''-'' @
     zpad 2 (dec (nat (dt_day t)))"

text \<open>Lines 82 and 83: a stored datetime is shown as its date.\<close>

definition public_date :: "document \<Rightarrow> document" where
  "public_date d =
     (case d ''date'' of
        Some (VDate t) \<Rightarrow> d(''date'' \<mapsto> VStr (iso_date t))
      | _ \<Rightarrow> d)"

text \<open>
  Lines 84 and 85, and 150 and 151: \<^verbatim>\<open>if "_id" in d: d["id"] = str(d.pop("_id"))\<close>.
\<close>

definition public_id :: "(pyval \<Rightarrow> string) \<Rightarrow> document \<Rightarrow> document" where
  "public_id render d =
     (case d ''_id'' of
        None \<Rightarrow> d
      | Some v \<Rightarrow> (d(''_id'' := None))(''id'' \<mapsto> VStr (py_str render v)))"

text \<open>GET \<^verbatim>\<open>/api/transactions\<close>; the framework passes 100 for a limit that is not given.\<close>

definition list_transactions ::
  "(pyval \<Rightarrow> string) \<Rightarrow> int option \<Rightarrow> store \<Rightarrow> (exn + document list) \<times> store" where
  "list_transactions render limit st =
     server_error
       (case get_documents ''transaction'' [] limit st of
          (Inl e, st1) \<Rightarrow> (Inl e, st1)
        | (Inr docs, st1) \<Rightarrow> (Inr (map (\<lambda>d. public_id render (public_date d)) docs), st1))"

text \<open>GET \<^verbatim>\<open>/api/budgets\<close>.\<close>

definition list_budgets ::
  "(pyval \<Rightarrow> string) \<Rightarrow> string option \<Rightarrow> store \<Rightarrow> (exn + document list) \<times> store" where
  "list_budgets render month st =
     server_error
       (case get_documents ''budget'' (budget_filter month) None st of
          (Inl e, st1) \<Rightarrow> (Inl e, st1)
        | (Inr docs, st1) \<Rightarrow> (Inr (map (public_id render) docs), st1))"

section \<open>The rule-based chat of \<^verbatim>\<open>chat\<close>\<close>

subsection \<open>Formatting\<close>

text \<open>
  \<^verbatim>\<open>f"{x:.2f}"\<close>: the exact value of the float rounded to two decimals, a tie going to the
  even neighbour, with the sign of a negative value kept (\<^verbatim>\<open>-0.001\<close> prints as \<^verbatim>\<open>-0.00\<close>).
\<close>

definition fmt2f :: "rat \<Rightarrow> string" where
  "fmt2f x =
     (let q = nat (round_half_even (\<bar>x\<bar> * 100))
      in (if x < 0 then ''-'' else []) @ dec (q div 100) @ ''.'' @ zpad 2 (dec (q mod 100)))"

text \<open>The truth value of \<^verbatim>\<open>if v\<close>.\<close>

fun truthy :: "pyval \<Rightarrow> bool" where
  "truthy (VStr s) = (s \<noteq> [])"
| "truthy (VNum r) = (r \<noteq> 0)"
| "truthy VNone = False"
| "truthy (VDate _) = True"
| "truthy (VOid _) = True"

text \<open>\<^verbatim>\<open>month or 'all time'\<close>.\<close>

fun period :: "string option \<Rightarrow> string" where
  "period None = ''all time''"
| "period (Some m) = (if m = [] then ''all time'' else m)"

subsection \<open>The replies\<close>

text \<open>
  \<^verbatim>\<open>max(cats, key=lambda k: cats[k])\<close> over the keys in their order: the entry met first
  among those of the greatest value, \<open>best\<close> being the greatest so far.
\<close>

fun max_entry :: "pyval \<times> rat \<Rightarrow> (pyval \<times> rat) list \<Rightarrow> pyval \<times> rat" where
  "max_entry best [] = best"
| "max_entry best (p # ps) = max_entry (if snd best < snd p then p else best) ps"

text \<open>Lines 174 to 180.\<close>

definition spending_reply :: "(pyval \<Rightarrow> string) \<Rightarrow> string option \<Rightarrow> summary_result \<Rightarrow> string" where
  "spending_reply render month s =
     ''For '' @ period month @ '', you spent $'' @ fmt2f (expense s) @ ''. '' @
     (case categories s of
        [] \<Rightarrow> []
      | p # ps \<Rightarrow>
          (case max_entry p ps of
             (top_cat, top_amount) \<Rightarrow>
               if truthy top_cat
               then ''Your top spending category is '' @ py_str render top_cat @ '' at $'' @
                    fmt2f top_amount @ ''. ''
               else []))"

text \<open>Line 182.\<close>

definition income_reply :: "string option \<Rightarrow> summary_result \<Rightarrow> string" where
  "income_reply month s =
     ''For '' @ period month @ '', your income totals $'' @ fmt2f (income s) @
     ''. Net is $'' @ fmt2f (net s) @ ''.''"

text \<open>
  Line 187, the line of one budget. A limit that is not a number cannot be formatted with
  \<^verbatim>\<open>.2f\<close> or compared with the amount spent: a string raises \<^verbatim>\<open>ValueError\<close> in the format, any
  other value \<^verbatim>\<open>TypeError\<close> in the format or in the comparison.
\<close>

definition budget_line ::
  "(pyval \<Rightarrow> string) \<Rightarrow> (pyval \<times> rat) list \<Rightarrow> pyval \<times> pyval \<Rightarrow> exn + string" where
  "budget_line render cats entry =
     (case entry of
        (cat, lm) \<Rightarrow>
          (let spent = dict_get cats cat 0
           in case lm of
                VNum l \<Rightarrow>
                  Inr (''- '' @ py_str render cat @ '': $'' @ fmt2f spent @ '' / $'' @ fmt2f l @
                       '' ('' @ (if l < spent then ''over'' else ''under'') @ '')'')
              | VStr _ \<Rightarrow> Inl FormatError
              | _ \<Rightarrow> Inl TypeError))"

text \<open>Lines 185 to 187: the lines of all budgets, in the order of the dict.\<close>

fun budget_lines ::
  "(pyval \<Rightarrow> string) \<Rightarrow> (pyval \<times> rat) list \<Rightarrow> (pyval \<times> pyval) list \<Rightarrow> exn + string list" where
  "budget_lines render cats [] = Inr []"
| "budget_lines render cats (entry # entries) =
     (case budget_line render cats entry of
        Inl e \<Rightarrow> Inl e
      | Inr first_line \<Rightarrow>
          (case budget_lines render cats entries of
             Inl e \<Rightarrow> Inl e
           | Inr more_lines \<Rightarrow> Inr (first_line # more_lines)))"

text \<open>Lines 184 to 188.\<close>

definition budget_reply :: "(pyval \<Rightarrow> string) \<Rightarrow> summary_result \<Rightarrow> exn + string" where
  "budget_reply render s =
     (case budget_lines render (categories s) (budgets s) of
        Inl e \<Rightarrow> Inl e
      | Inr body \<Rightarrow>
          Inr (if 1 < length (''Budgets:'' # body) then join [CHR 0x0A] (''Budgets:'' # body)
               else ''No budgets set yet.''))"

text \<open>Lines 190 to 193.\<close>

definition help_text :: string where
  "help_text =
     ''I can help with your personal finance. Ask things like 'show expenses this month', '' @
     '''what's my income', or 'how am I doing against my budget?'.''"

text \<open>Lines 173 to 193: the reply to the lower-cased message.\<close>

definition make_reply ::
  "(pyval \<Rightarrow> string) \<Rightarrow> string \<Rightarrow> string option \<Rightarrow> summary_result \<Rightarrow> exn + string" where
  "make_reply render user_msg month s =
     (if contains ''spend'' user_msg \<or> contains ''expense'' user_msg
        then Inr (spending_reply render month s)
      else if contains ''income'' user_msg then Inr (income_reply month s)
      else if contains ''budget'' user_msg then budget_reply render s
      else Inr help_text)"

subsection \<open>The handler\<close>

record ChatRequest =
  message :: string
  month :: "string option"

text \<open>\<^verbatim>\<open>ChatMessage(role=r, content=c)\<close> as the document that is stored.\<close>

definition ChatMessage :: "string \<Rightarrow> string \<Rightarrow> document" where
  "ChatMessage r c = [''role'' \<mapsto> VStr r, ''content'' \<mapsto> VStr c, ''session_id'' \<mapsto> VNone]"

text \<open>
  Lines 195 to 199: the two inserts inside \<^verbatim>\<open>try\<close> ... \<^verbatim>\<open>except Exception: pass\<close>. When the
  first insert raises the second is not tried; either way only the store changes.
\<close>

definition log_chat :: "string \<Rightarrow> string \<Rightarrow> store \<Rightarrow> store" where
  "log_chat msg reply st =
     (case create_document ''chatmessage'' (ChatMessage ''user'' msg) st of
        (Inl _, st1) \<Rightarrow> st1
      | (Inr _, st1) \<Rightarrow>
          snd (create_document ''chatmessage'' (ChatMessage ''assistant'' reply) st1))"

text \<open>
  POST \<^verbatim>\<open>/api/chat\<close>. The \<^verbatim>\<open>HTTPException\<close> that \<^verbatim>\<open>summary\<close> raises is caught by the handler's
  own \<^verbatim>\<open>except Exception\<close> and wrapped once more.
\<close>

definition chat_body ::
  "(pyval \<Rightarrow> string) \<Rightarrow> ChatRequest \<Rightarrow> store \<Rightarrow> (exn + string \<times> summary_result) \<times> store" where
  "chat_body render req st =
     (let user_msg = lower (message req)
      in case summary (month req) st of
           (Inl e, st1) \<Rightarrow> (Inl e, st1)
         | (Inr s, st1) \<Rightarrow>
             (case make_reply render user_msg (month req) s of
                Inl e \<Rightarrow> (Inl e, st1)
              | Inr reply \<Rightarrow> (Inr (reply, s), log_chat (message req) reply st1)))"

definition chat ::
  "(pyval \<Rightarrow> string) \<Rightarrow> ChatRequest \<Rightarrow> store \<Rightarrow> (exn + string \<times> summary_result) \<times> store" where
  "chat render req st = server_error (chat_body render req st)"

section \<open>Recording a transaction\<close>

text \<open>The schema \<^verbatim>\<open>Transaction\<close> of \<^verbatim>\<open>schemas.py\<close> and its field constraints.\<close>

record Transaction =
  amount :: rat
  type :: string
  category :: string
  date :: string
  "notes" :: "string option"

text \<open>The pattern \<^verbatim>\<open>^\d{4}-\d{2}-\d{2}$\<close>.\<close>

definition date_pattern :: "string \<Rightarrow> bool" where
  "date_pattern s =
     (length s = 10 \<and> list_all is_digit (take 4 s) \<and> s ! 4 = CHR ''-'' \<and>
      list_all is_digit (take 2 (drop 5 s)) \<and> s ! 7 = CHR ''-'' \<and>
      list_all is_digit (drop 8 s))"

definition Transaction_valid :: "Transaction \<Rightarrow> bool" where
  "Transaction_valid txn =
     (0 < amount txn \<and> (type txn = ''expense'' \<or> type txn = ''income'') \<and>
      date_pattern (date txn))"

text \<open>\<^verbatim>\<open>txn.model_dump()\<close>: every field of the schema, an absent note as \<^verbatim>\<open>None\<close>.\<close>

definition model_dump :: "Transaction \<Rightarrow> document" where
  "model_dump txn =
     [''amount'' \<mapsto> VNum (amount txn), ''type'' \<mapsto> VStr (type txn),
      ''category'' \<mapsto> VStr (category txn), ''date'' \<mapsto> VStr (date txn),
      ''notes'' \<mapsto> (case notes txn of None \<Rightarrow> VNone | Some n \<Rightarrow> VStr n)]"

text \<open>
  \<^verbatim>\<open>datetime.strptime(s, "%Y-%m-%d")\<close>. The directives read a prefix each, the alternatives
  of a directive tried in the order of the library's patterns: \<^verbatim>\<open>%Y\<close> is four digits, \<^verbatim>\<open>%m\<close> is
  \<^verbatim>\<open>1[0-2]|0[1-9]|[1-9]\<close> and \<^verbatim>\<open>%d\<close> is \<^verbatim>\<open>3[01]|[12]\d|0[1-9]|[1-9]| [1-9]\<close>. Text left over
  after the day, and a date the calendar does not have, raise \<^verbatim>\<open>ValueError\<close>.
\<close>

definition digits_value :: "string \<Rightarrow> int" where
  "digits_value ds = foldl (\<lambda>acc c. acc * 10 + digit_val c) 0 ds"

fun strptime_month :: "string \<Rightarrow> (int \<times> string) option" where
  "strptime_month (a # b # r) =
     (if a = CHR ''1'' \<and> b \<in> set ''012'' then Some (digits_value [a, b], r)
      else if a = CHR ''0'' \<and> b \<in> set ''123456789'' then Some (digits_value [a, b], r)
      else if a \<in> set ''123456789'' then Some (digits_value [a], b # r)
      else None)"
| "strptime_month [a] = (if a \<in> set ''123456789'' then Some (digits_value [a], []) else None)"
| "strptime_month [] = None"

fun strptime_day :: "string \<Rightarrow> (int \<times> string) option" where
  "strptime_day (a # b # r) =
     (if a = CHR ''3'' \<and> b \<in> set ''01'' then Some (digits_value [a, b], r)
      else if a \<in> set ''12'' \<and> is_digit b then Some (digits_value [a, b], r)
      else if a = CHR ''0'' \<and> b \<in> set ''123456789'' then Some (digits_value [a, b], r)
      else if a \<in> set ''123456789'' then Some (digits_value [a], b # r)
      else if a = CHR '' '' \<and> b \<in> set ''123456789'' then Some (digits_value [b], r)
      else None)"
| "strptime_day [a] = (if a \<in> set ''123456789'' then Some (digits_value [a], []) else None)"
| "strptime_day [] = None"

definition strptime_ymd :: "string \<Rightarrow> exn + datetime" where
  "strptime_ymd s =
     (if length s < 4 \<or> \<not> list_all is_digit (take 4 s) then Inl (StrptimeError s)
      else (case drop 4 s of
              [] \<Rightarrow> Inl (StrptimeError s)
            | h # r1 \<Rightarrow>
                if h = CHR ''-''
                then (case strptime_month r1 of
                        None \<Rightarrow> Inl (StrptimeError s)
                      | Some (m, r2) \<Rightarrow>
                          (case r2 of
                             [] \<Rightarrow> Inl (StrptimeError s)
                           | h' # r3 \<Rightarrow>
                               if h' = CHR ''-''
                               then (case strptime_day r3 of
                                       None \<Rightarrow> Inl (StrptimeError s)
                                     | Some (d, r4) \<Rightarrow>
                                         if r4 = []
                                         then datetime_ymd (digits_value (take 4 s)) m d
                                         else Inl (StrptimeError s))
                               else Inl (StrptimeError s)))
                else Inl (StrptimeError s)))"

text \<open>
  Lines 65 to 70: the dictionary that is handed to the store. The conversion of the date
  stands in a \<^verbatim>\<open>try\<close> of its own whose \<^verbatim>\<open>except Exception: pass\<close> keeps the string.
\<close>

definition stored_transaction :: "Transaction \<Rightarrow> document" where
  "stored_transaction txn =
     (let txn_dict = model_dump txn
      in case strptime_ymd (date txn) of
           Inl _ \<Rightarrow> txn_dict
         | Inr t \<Rightarrow> txn_dict(''date'' \<mapsto> VDate t))"

text \<open>The handler of POST \<^verbatim>\<open>/api/transactions\<close>, called with a validated body.\<close>

definition add_transaction :: "Transaction \<Rightarrow> store \<Rightarrow> (exn + pyval \<times> string) \<times> store" where
  "add_transaction txn st =
     server_error
       (case create_document ''transaction'' (stored_transaction txn) st of
          (Inl e, st1) \<Rightarrow> (Inl e, st1)
        | (Inr inserted_id, st1) \<Rightarrow> (Inr (inserted_id, ''ok''), st1))"

text \<open>
  The endpoint: the framework validates the body against the schema before the handler
  runs and answers a body that violates it with the client error 422.
\<close>

definition post_transaction :: "Transaction \<Rightarrow> store \<Rightarrow> (exn + pyval \<times> string) \<times> store" where
  "post_transaction txn st =
     (if Transaction_valid txn then add_transaction txn st
      else (Inl (HTTPException 422 ValidationError), st))"

section \<open>Example states\<close>

text \<open>
  The state of the specification's scenario: the transaction
  \<^verbatim>\<open>{amount:50, type:"expense", category:"groceries", date:"2025-01-05"}\<close> as POST
  \<^verbatim>\<open>/api/transactions\<close> stores it, and the budget
  \<^verbatim>\<open>{month:"2025-01", category:"groceries", limit:40}\<close>.
\<close>

definition txn_doc :: "nat \<Rightarrow> rat \<Rightarrow> string \<Rightarrow> string \<Rightarrow> datetime \<Rightarrow> document" where
  "txn_doc i a ty cat t =
     [''amount'' \<mapsto> VNum a, ''type'' \<mapsto> VStr ty, ''category'' \<mapsto> VStr cat, ''date'' \<mapsto> VDate t,
      ''notes'' \<mapsto> VNone, ''_id'' \<mapsto> VOid i]"

definition budget_doc :: "nat \<Rightarrow> string \<Rightarrow> string \<Rightarrow> rat \<Rightarrow> document" where
  "budget_doc i mo cat l =
     [''month'' \<mapsto> VStr mo, ''category'' \<mapsto> VStr cat, ''limit'' \<mapsto> VNum l, ''_id'' \<mapsto> VOid i]"

definition empty_store :: store where
  "empty_store = \<lparr>collections = (\<lambda>_. []), next_id = 0, outages = []\<rparr>"

definition scenario_txn :: Transaction where
  "scenario_txn =
     \<lparr>amount = 50, type = ''expense'', category = ''groceries'', date = ''2025-01-05'',
      notes = None\<rparr>"

text \<open>A body that the schema accepts although February has no 30th day.\<close>

definition unreal_date_txn :: Transaction where
  "unreal_date_txn =
     \<lparr>amount = 50, type = ''expense'', category = ''groceries'', date = ''2025-02-30'',
      notes = None\<rparr>"

definition scenario_store :: store where
  "scenario_store =
     \<lparr>collections = (\<lambda>_. [])
        (''transaction'' := [txn_doc 0 50 ''expense'' ''groceries'' (midnight 2025 1 5)],
         ''budget'' := [budget_doc 1 ''2025-01'' ''groceries'' 40]),
      next_id = 2, outages = []\<rparr>"

text \<open>The state of the scenario after one more expense on groceries in January 2025.\<close>

definition busy_store :: store where
  "busy_store =
     \<lparr>collections = (\<lambda>_. [])
        (''transaction'' := [txn_doc 0 50 ''expense'' ''groceries'' (midnight 2025 1 5),
                             txn_doc 2 25 ''expense'' ''groceries'' (midnight 2025 1 20)],
         ''budget'' := [budget_doc 1 ''2025-01'' ''groceries'' 40]),
      next_id = 3, outages = []\<rparr>"

text \<open>
  Three expenses of 0.1, 0.1 and 0.4, the first and the last of one category: the amounts are
  the floats nearest to these decimals.
\<close>

definition rounding_store :: store where
  "rounding_store =
     \<lparr>collections = (\<lambda>_. [])
        (''transaction'' := [txn_doc 0 (float_round (1 / 10)) ''expense'' ''A'' (midnight 2025 1 5),
                             txn_doc 1 (float_round (1 / 10)) ''expense'' ''B'' (midnight 2025 1 6),
                             txn_doc 2 (float_round (4 / 10)) ''expense'' ''A'' (midnight 2025 1 7)]),
      next_id = 3, outages = []\<rparr>"

text \<open>
  A larger state: transactions on both sides of the bounds of January 2025, one without a
  category, one without an amount, and two budgets for the same category and month.
\<close>

definition uncategorised_txn :: document where
  "uncategorised_txn = (txn_doc 4 (15 / 2) ''expense'' [] (midnight 2025 1 10))(''category'' := None)"

definition amountless_txn :: document where
  "amountless_txn = (txn_doc 5 0 ''expense'' ''groceries'' (midnight 2025 1 11))(''amount'' := None)"

definition example_transactions :: "document list" where
  "example_transactions =
     [txn_doc 0 15 ''expense'' ''gifts'' (midnight 2024 12 31),
      txn_doc 1 50 ''expense'' ''groceries'' (midnight 2025 1 1),
      txn_doc 2 3000 ''income'' ''salary'' (midnight 2025 1 15),
      txn_doc 3 1200 ''expense'' ''rent'' (midnight 2025 1 31),
      uncategorised_txn,
      amountless_txn,
      txn_doc 6 20 ''expense'' ''groceries'' (midnight 2025 2 1)]"

definition example_budgets :: "document list" where
  "example_budgets =
     [budget_doc 7 ''2025-01'' ''groceries'' 40,
      budget_doc 8 ''2025-01'' ''rent'' 1500,
      budget_doc 9 ''2025-01'' ''groceries'' 60,
      budget_doc 10 ''2025-02'' ''groceries'' 10]"

definition example_store :: store where
  "example_store =
     \<lparr>collections = (\<lambda>_. [])
        (''transaction'' := example_transactions, ''budget'' := example_budgets),
      next_id = 11, outages = []\<rparr>"

text \<open>A text for the values that are not strings, for the examples.\<close>

definition example_render :: "pyval \<Rightarrow> string" where
  "example_render v = (case v of VOid n \<Rightarrow> ''oid-'' @ dec n | _ \<Rightarrow> ''?'')"

section \<open>Properties\<close>

subsection \<open>Rounding to a float\<close>

text \<open>
  The exponent that \<open>ilog2\<close> computes is the one of the binade, and rounding gives a float,
  which rounding again does not change: adding 0 to a running total is exact.
\<close>

lemma bitlen_powi_bounds:
  assumes "0 < p"
  shows "2 powi (bitlen p - 1) \<le> (of_int p :: rat)" and "(of_int p :: rat) < 2 powi (bitlen p)"
proof -
  from assms have b1: "1 \<le> bitlen p" by (auto simp: bitlen_alt_def)
  from bitlen_bounds[OF assms] have lo: "2 ^ nat (bitlen p - 1) \<le> p" and hi: "p < 2 ^ nat (bitlen p)"
    by auto
  have "(2::rat) powi (bitlen p - 1) = 2 ^ nat (bitlen p - 1)"
    using b1 by (simp add: power_int_def)
  also have "\<dots> = of_int (2 ^ nat (bitlen p - 1))" by simp
  also have "\<dots> \<le> of_int p" using lo by (simp only: of_int_le_iff)
  finally show "2 powi (bitlen p - 1) \<le> (of_int p :: rat)" .
  have "(of_int p :: rat) < of_int (2 ^ nat (bitlen p))" using hi by (simp only: of_int_less_iff)
  also have "\<dots> = 2 ^ nat (bitlen p)" by simp
  also have "\<dots> = (2::rat) powi (bitlen p)"
    using b1 by (simp add: power_int_def)
  finally show "(of_int p :: rat) < 2 powi (bitlen p)" .
qed

lemma ilog2_bounds:
  assumes "0 < x"
  shows "2 powi (ilog2 x) \<le> x \<and> x < 2 powi (ilog2 x + 1)"
proof -
  obtain p q where pq: "quotient_of x = (p, q)" by (cases "quotient_of x")
  then have q: "0 < q" and x: "x = of_int p / of_int q"
    by (auto dest: quotient_of_denom_pos quotient_of_div)
  with assms have p: "0 < p"
    by (simp add: zero_less_divide_iff)
  define e where "e = bitlen p - bitlen q"
  have qpos: "(0::rat) < of_int q" using q by simp
  have up: "x < 2 powi (e + 1)"
  proof -
    have "x < 2 powi (bitlen p) / of_int q"
      unfolding x using bitlen_powi_bounds(2)[OF p] qpos by (simp add: divide_strict_right_mono)
    also have "\<dots> \<le> 2 powi (bitlen p) / 2 powi (bitlen q - 1)"
      using bitlen_powi_bounds(1)[OF q] by (intro frac_le) auto
    also have "\<dots> = 2 powi (bitlen p - (bitlen q - 1))"
      by (rule power_int_diff[symmetric]) simp
    also have "bitlen p - (bitlen q - 1) = e + 1"
      by (simp add: e_def)
    finally show ?thesis .
  qed
  have lo: "2 powi (e - 1) \<le> x"
  proof -
    have eq: "e - 1 = bitlen p - 1 - bitlen q"
      by (simp add: e_def)
    have "(2::rat) powi (e - 1) = 2 powi (bitlen p - 1 - bitlen q)"
      by (simp only: eq)
    also have "\<dots> = 2 powi (bitlen p - 1) / 2 powi (bitlen q)"
      by (rule power_int_diff) simp
    also have "\<dots> \<le> of_int p / 2 powi (bitlen q)"
      using bitlen_powi_bounds(1)[OF p] by (simp add: divide_right_mono)
    also have "\<dots> \<le> of_int p / of_int q"
      using bitlen_powi_bounds(2)[OF q] p qpos by (intro frac_le) auto
    finally show ?thesis by (simp add: x)
  qed
  show ?thesis
  proof (cases "2 powi e \<le> x")
    case True
    then have "ilog2 x = e" by (simp add: ilog2_def pq e_def Let_def)
    with True up show ?thesis by simp
  next
    case False
    then have "ilog2 x = e - 1" by (simp add: ilog2_def pq e_def Let_def)
    with False lo show ?thesis by simp
  qed
qed

lemma ilog2_unique:
  assumes "0 < x" "2 powi e \<le> x" "x < 2 powi (e + 1)"
  shows "ilog2 x = e"
proof (rule ccontr)
  assume ne: "ilog2 x \<noteq> e"
  from ilog2_bounds[OF assms(1)] have b: "2 powi (ilog2 x) \<le> x" "x < 2 powi (ilog2 x + 1)" by auto
  show False
  proof (cases "ilog2 x < e")
    case True
    then have "(2::rat) powi (ilog2 x + 1) \<le> 2 powi e"
      by (intro power_int_increasing) auto
    with b(2) assms(2) show False by simp
  next
    case False
    with ne have "e + 1 \<le> ilog2 x" by simp
    then have "(2::rat) powi (e + 1) \<le> 2 powi (ilog2 x)"
      by (intro power_int_increasing) auto
    with b(1) assms(3) show False by simp
  qed
qed

lemma round_half_even_of_int [simp]: "round_half_even (of_int k) = k"
  by (simp add: round_half_even_def)

lemma round_half_even_numeral [simp]: "round_half_even (numeral k) = numeral k"
  using round_half_even_of_int[of "numeral k"] by simp

lemma round_half_even_bounds:
  assumes "of_int a \<le> x" "x \<le> of_int b"
  shows "a \<le> round_half_even x \<and> round_half_even x \<le> b"
proof -
  have f: "a \<le> \<lfloor>x\<rfloor>" using assms(1) by (simp add: le_floor_iff)
  have c: "\<lfloor>x\<rfloor> \<le> b" using assms(2) by (simp add: floor_le_iff) 
  show ?thesis
  proof (cases "x = of_int \<lfloor>x\<rfloor>")
    case True
    then have "round_half_even x = round_half_even (of_int \<lfloor>x\<rfloor>)" by simp
    then have "round_half_even x = \<lfloor>x\<rfloor>"
      by (simp only: round_half_even_of_int)
    with f c show ?thesis by simp
  next
    case False
    then have "of_int \<lfloor>x\<rfloor> < x" by (metis less_le of_int_floor_le)
    with assms(2) have "(of_int \<lfloor>x\<rfloor> :: rat) < of_int b" by simp
    then have "\<lfloor>x\<rfloor> < b" by (simp only: of_int_less_iff)
    moreover have "round_half_even x = \<lfloor>x\<rfloor> \<or> round_half_even x = \<lfloor>x\<rfloor> + 1"
      by (auto simp: round_half_even_def Let_def)
    ultimately show ?thesis using f by auto
  qed
qed


lemma float_round_zero [simp]: "float_round 0 = 0"
  by (simp add: float_round_def)

lemma float_round_minus: "float_round (- x) = - float_round x"
  by (simp add: float_round_def Let_def)

text \<open>A number \<open>n * 2 powi k\<close> with \<open>2 ^ 52 \<le> n \<le> 2 ^ 53\<close> is a float: rounding leaves it as it is.\<close>

lemma float_round_fixed_pos:
  assumes n: "2 ^ 52 \<le> n" "n \<le> 2 ^ 53"
  shows "float_round (of_int n * 2 powi k) = of_int n * 2 powi k"
proof -
  let ?y = "of_int n * (2::rat) powi k"
  have npos: "(0::rat) < of_int n" using n(1) by simp
  have ypos: "0 < ?y" using npos by simp
  show ?thesis
  proof (cases "n = 2 ^ 53")
    case True
    have y: "?y = 2 powi (k + 53)"
      by (simp add: True power_int_add)
    have "ilog2 ?y = k + 53"
      by (rule ilog2_unique) (use ypos in \<open>simp_all add: y power_int_add\<close>)
    moreover have "?y / 2 powi (k + 53 - 52) = of_int (2 ^ 52)"
      by (simp add: y power_int_diff power_int_add)
    ultimately show ?thesis
      using ypos by (simp add: float_round_def Let_def abs_of_pos y power_int_add)
  next
    case False
    with n have lt: "n < 2 ^ 53" by simp
    have lo: "2 powi (k + 52) \<le> ?y"
    proof -
      have "(2::rat) powi (k + 52) = of_int (2 ^ 52) * 2 powi k" by (simp add: power_int_add)
      also have "\<dots> \<le> ?y"
      proof (rule mult_right_mono)
        show "(of_int (2 ^ 52) :: rat) \<le> of_int n" using n(1) by (subst of_int_le_iff)
        show "(0::rat) \<le> 2 powi k" by simp
      qed
      finally show ?thesis .
    qed
    have hi: "?y < 2 powi (k + 52 + 1)"
    proof -
      have "?y < of_int (2 ^ 53) * 2 powi k"
      proof (rule mult_strict_right_mono)
        show "(of_int n :: rat) < of_int (2 ^ 53)" using lt by (subst of_int_less_iff)
        show "(0::rat) < 2 powi k" by simp
      qed
      also have "\<dots> = 2 powi (k + 52 + 1)" by (simp add: power_int_add)
      finally show ?thesis .
    qed
    have "ilog2 ?y = k + 52"
      by (rule ilog2_unique[OF ypos lo hi])
    moreover have "?y / 2 powi (k + 52 - 52) = of_int n" by simp
    ultimately show ?thesis
      using ypos by (simp add: float_round_def Let_def abs_of_pos sgn_if)
  qed
qed

lemma float_round_idem: "float_round (float_round x) = float_round x"
proof -
  have pos: "float_round (float_round x) = float_round x" if "0 < x" for x :: rat
  proof -
    define e where "e = ilog2 x"
    define u where "u = (2::rat) powi (e - 52)"
    define n where "n = round_half_even (x / u)"
    have upos: "0 < u" by (simp add: u_def)
    from ilog2_bounds[OF that] have b: "2 powi e \<le> x" "x < 2 powi (e + 1)" by (auto simp: e_def)
    have "of_int (2 ^ 52) \<le> x / u"
      using b(1) upos by (simp add: u_def pos_le_divide_eq power_int_diff)
    moreover have "x / u \<le> of_int (2 ^ 53)"
      using b(2) upos by (simp add: u_def pos_divide_le_eq power_int_diff power_int_add)
    ultimately have n: "2 ^ 52 \<le> n" "n \<le> 2 ^ 53"
      unfolding n_def using round_half_even_bounds by blast+
    have r: "float_round x = of_int n * 2 powi (e - 52)"
      using that by (simp add: float_round_def Let_def abs_of_pos e_def u_def n_def)
    show ?thesis
      unfolding r by (rule float_round_fixed_pos[OF n])
  qed
  show ?thesis
  proof (cases "0 < x")
    case True
    then show ?thesis by (rule pos)
  next
    case False
    show ?thesis
    proof (cases "x = 0")
      case True
      then show ?thesis by simp
    next
      case False
      with \<open>\<not> 0 < x\<close> have "0 < - x" by simp
      from pos[OF this] show ?thesis
        by (simp add: float_round_minus)
    qed
  qed
qed

lemma fadd_zero_float_round [simp]: "fadd (float_round x) 0 = float_round x"
  by (simp add: fadd_def float_round_idem)

lemma fadd_zero_fadd [simp]: "fadd (fadd x y) 0 = fadd x y"
  by (simp add: fadd_def float_round_idem)

lemma fadd_zero_zero [simp]: "fadd 0 0 = 0"
  by (simp add: fadd_def)

subsection \<open>Auxiliary facts about the handlers\<close>

lemma server_error_Inr_iff: "server_error r = (Inr v, st') \<longleftrightarrow> r = (Inr v, st')"
  by (cases r) (auto simp: server_error_def split: sum.splits)

lemma server_error_Inl_iff:
  "server_error r = (Inl e, st') \<longleftrightarrow> (\<exists>e'. r = (Inl e', st') \<and> e = HTTPException 500 e')"
  by (cases r) (auto simp: server_error_def split: sum.splits)

lemma reach_collections:
  "reach st = (r, st') \<Longrightarrow> collections st' = collections st \<and> next_id st' = next_id st"
  by (auto simp: reach_def split: list.splits)

lemma get_documents_Inr:
  "get_documents name flt limit st = (Inr docs, st') \<Longrightarrow>
     docs = (case limit of
               None \<Rightarrow> filter (matches flt) (collections st name)
             | Some n \<Rightarrow> take (nat n) (filter (matches flt) (collections st name))) \<and>
     collections st' = collections st"
  by (auto simp: get_documents_def Let_def dest: reach_collections
           split: prod.splits option.splits)

text \<open>What a summary that is returned was computed from, in terms of the stored collections.\<close>

lemma summary_Inr:
  assumes "summary mo st = (Inr s, st')"
  shows "\<exists>flt. month_filter mo = Inr flt \<and>
           aggregate (filter (matches flt) (collections st ''transaction'')) =
             Inr (income s, expense s, categories s) \<and>
           budgets_loop [] (filter (matches (budget_filter mo)) (collections st ''budget'')) =
             Inr (budgets s) \<and>
           net s = fsub (income s) (expense s)"
  using assms
  by (auto simp: summary_def server_error_Inr_iff summary_body_def
           split: sum.splits prod.splits dest!: get_documents_Inr)

subsection \<open>Budgets: the last fetched document of a category decides\<close>

lemma budgets_loop_untouched:
  "budgets_loop acc bs = Inr m \<Longrightarrow> \<forall>b \<in> set bs. b ''category'' \<noteq> Some cat \<Longrightarrow>
     map_of m cat = map_of acc cat"
proof (induction bs arbitrary: acc)
  case Nil
  then show ?case by simp
next
  case (Cons b bs)
  then show ?case
    by (auto simp: update_conv' split: option.splits)
qed

lemma budgets_loop_append:
  "budgets_loop acc (pre @ rest) = Inr m \<Longrightarrow>
     \<exists>acc'. budgets_loop acc pre = Inr acc' \<and> budgets_loop acc' rest = Inr m"
  by (induction pre arbitrary: acc) (auto split: option.splits)

lemma budgets_loop_last:
  assumes "budgets_loop acc (pre @ b # post) = Inr m"
    and "b ''category'' = Some cat"
    and "\<forall>b' \<in> set post. b' ''category'' \<noteq> Some cat"
  shows "map_of m cat = b ''limit''"
proof -
  from assms(1) obtain acc' where
    "budgets_loop acc pre = Inr acc'" and rest: "budgets_loop acc' (b # post) = Inr m"
    using budgets_loop_append by blast
  from rest assms(2) obtain lm where lm: "b ''limit'' = Some lm"
    and post: "budgets_loop (AList.update cat lm acc') post = Inr m"
    by (auto split: option.splits)
  from budgets_loop_untouched[OF post assms(3)] lm show ?thesis
    by (simp add: update_conv')
qed

text \<open>
  Claim C3. Let the budget documents fetched for a summary (those of the collection
  \<^verbatim>\<open>budget\<close> that match the month filter, in the order of the fetch) be \<open>pre @ b # post\<close>,
  where \<open>b\<close> is the last document of the category \<open>cat\<close>: no document of \<open>post\<close> has that
  category. Then the \<open>budgets\<close> mapping of the returned summary gives \<open>cat\<close> the \<open>limit\<close> of
  \<open>b\<close>, whatever the documents of \<open>pre\<close> say. In particular, of two budget records for the
  same category and month the one fetched last is reported.
\<close>

theorem summary_budgets_last_wins:
  assumes "summary mo st = (Inr s, st')"
    and "filter (matches (budget_filter mo)) (collections st ''budget'') = pre @ b # post"
    and "b ''category'' = Some cat"
    and "\<forall>b' \<in> set post. b' ''category'' \<noteq> Some cat"
  shows "map_of (budgets s) cat = b ''limit''"
proof -
  from summary_Inr[OF assms(1)] assms(2)
  have "budgets_loop [] (pre @ b # post) = Inr (budgets s)"
    by auto
  then show ?thesis
    using assms(3,4) by (rule budgets_loop_last)
qed

lemma example_summary_january:
  "fst (summary (Some ''2025-01'') example_store) =
     Inr \<lparr>income = 3000, expense = 2515 / 2, net = 3485 / 2,
          categories = [(VStr ''groceries'', 50), (VStr ''rent'', 1200), (VStr ''Other'', 15 / 2)],
          budgets = [(VStr ''groceries'', VNum 60), (VStr ''rent'', VNum 1500)]\<rparr>"
  by code_simp

lemma example_budgets_january:
  "filter (matches (budget_filter (Some ''2025-01''))) (collections example_store ''budget'') =
     [budget_doc 7 ''2025-01'' ''groceries'' 40, budget_doc 8 ''2025-01'' ''rent'' 1500] @
     budget_doc 9 ''2025-01'' ''groceries'' 60 # []"
  by (simp add: example_store_def example_budgets_def matches_def budget_doc_def)

text \<open>
  The example state has two budgets for groceries in January 2025, with the limits 40 and
  60 in the order of the fetch: the summary reports 60.
\<close>

theorem summary_budgets_last_wins_witness:
  "fst (summary (Some ''2025-01'') example_store) =
     Inr \<lparr>income = 3000, expense = 2515 / 2, net = 3485 / 2,
          categories = [(VStr ''groceries'', 50), (VStr ''rent'', 1200), (VStr ''Other'', 15 / 2)],
          budgets = [(VStr ''groceries'', VNum 60), (VStr ''rent'', VNum 1500)]\<rparr> \<and>
   map_of [(VStr ''groceries'', VNum 60), (VStr ''rent'', VNum 1500)] (VStr ''groceries'') =
     budget_doc 9 ''2025-01'' ''groceries'' 60 ''limit'' \<and>
   budget_doc 9 ''2025-01'' ''groceries'' 60 ''limit'' = Some (VNum 60)"
proof -
  let ?s = "\<lparr>income = 3000, expense = 2515 / 2, net = 3485 / 2,
          categories = [(VStr ''groceries'', 50), (VStr ''rent'', 1200), (VStr ''Other'', 15 / 2)],
          budgets = [(VStr ''groceries'', VNum 60), (VStr ''rent'', VNum 1500)]\<rparr>"
  have run: "summary (Some ''2025-01'') example_store =
      (Inr ?s, snd (summary (Some ''2025-01'') example_store))"
    using example_summary_january by (metis prod.collapse)
  have cat: "budget_doc 9 ''2025-01'' ''groceries'' 60 ''category'' = Some (VStr ''groceries'')"
    by (simp add: budget_doc_def)
  have "map_of (budgets ?s) (VStr ''groceries'') = budget_doc 9 ''2025-01'' ''groceries'' 60 ''limit''"
    using summary_budgets_last_wins[OF run example_budgets_january cat] by simp
  then show ?thesis
    using example_summary_january by (simp add: budget_doc_def)
qed

subsection \<open>Categories and the expense total\<close>

text \<open>
  The expense total (line 109) adds the amounts in the order of the documents; the loop of
  lines 111 to 114 adds the same amounts category by category. Both round after every
  addition, so the two can part where an addition is not exact.
\<close>

lemma sum_update_add:
  "sum_list (map snd (AList.update k (dict_get m k 0 + a) m)) = sum_list (map snd m) + (a::rat)"
  by (induction m) (auto simp: dict_get_def)

lemma add_amount_Inr:
  "add_amount acc d = Inr v \<Longrightarrow> v = fadd acc (amount_or_zero d)"
  by (auto simp: add_amount_def amount_or_zero_def split: option.splits pyval.splits)

lemma by_cat_loop_sum:
  "sum_amounts ''expense'' acc docs = Inr e \<Longrightarrow> by_cat_loop by_cat docs = Inr by_cat' \<Longrightarrow>
   exact_total ''expense'' acc docs \<Longrightarrow> exact_by_cat by_cat docs \<Longrightarrow>
     sum_list (map snd by_cat') - sum_list (map snd by_cat) = e - acc"
proof (induction docs arbitrary: acc by_cat)
  case Nil
  then show ?case by simp
next
  case (Cons d docs)
  show ?case
  proof (cases "d ''type'' = Some (VStr ''expense'')")
    case False
    with Cons show ?thesis by simp
  next
    case True
    let ?cat = "case d ''category'' of None \<Rightarrow> VStr ''Other'' | Some c \<Rightarrow> c"
    let ?a = "amount_or_zero d"
    let ?old = "dict_get by_cat ?cat 0"
    from True Cons.prems(3) have ea: "fadd acc ?a = acc + ?a"
      and et: "exact_total ''expense'' (acc + ?a) docs"
      by simp_all
    from True Cons.prems(4) have eb: "fadd ?old ?a = ?old + ?a"
      and ec: "exact_by_cat (AList.update ?cat (?old + ?a) by_cat) docs"
      by (simp_all add: Let_def)
    from True Cons.prems(1) ea have s: "sum_amounts ''expense'' (acc + ?a) docs = Inr e"
      by (auto dest: add_amount_Inr split: sum.splits)
    from True Cons.prems(2) eb
    have b: "by_cat_loop (AList.update ?cat (?old + ?a) by_cat) docs = Inr by_cat'"
      by (auto simp: Let_def dest: add_amount_Inr split: sum.splits)
    from Cons.IH[OF s b et ec] show ?thesis
      by (simp add: sum_update_add)
  qed
qed

text \<open>A whole number below \<open>2 ^ 53\<close> is a float.\<close>

lemma float_round_int:
  assumes "0 < n" "n < 2 ^ 53"
  shows "float_round (of_int n) = of_int n"
proof -
  define j where "j = nat (53 - bitlen n)"
  from assms(1) have b1: "1 \<le> bitlen n" by (auto simp: bitlen_alt_def)
  from bitlen_bounds[OF assms(1)] have lo: "2 ^ nat (bitlen n - 1) \<le> n" and hi: "n < 2 ^ nat (bitlen n)"
    by auto
  have b53: "bitlen n \<le> 53"
  proof (rule ccontr)
    assume "\<not> bitlen n \<le> 53"
    then have "53 \<le> nat (bitlen n - 1)" by simp
    then have "(2::int) ^ 53 \<le> 2 ^ nat (bitlen n - 1)" by (intro power_increasing) simp_all
    with lo assms(2) show False by simp
  qed
  have e1: "nat (bitlen n - 1) + j = 52" and e2: "nat (bitlen n) + j = 53"
    using b1 b53 by (simp_all add: j_def)
  have "2 ^ 52 \<le> n * 2 ^ j"
  proof -
    have "(2::int) ^ 52 = 2 ^ nat (bitlen n - 1) * 2 ^ j"
      by (simp only: power_add[symmetric] e1)
    also have "\<dots> \<le> n * 2 ^ j" using lo by (intro mult_right_mono) simp_all
    finally show ?thesis .
  qed
  moreover have "n * 2 ^ j \<le> 2 ^ 53"
  proof -
    have "n * 2 ^ j \<le> 2 ^ nat (bitlen n) * 2 ^ j" using hi by (intro mult_right_mono) simp_all
    also have "\<dots> = 2 ^ 53" by (simp only: power_add[symmetric] e2)
    finally show ?thesis .
  qed
  ultimately have fixed: "float_round (of_int (n * 2 ^ j) * 2 powi (- int j)) = of_int (n * 2 ^ j) * 2 powi (- int j)"
    by (rule float_round_fixed_pos)
  have scaled: "(of_int (n * 2 ^ j) :: rat) * 2 powi (- int j) = of_int n"
    by (simp add: power_int_minus field_simps)
  show ?thesis using fixed unfolding scaled .
qed

text \<open>Whole numbers add exactly as long as the sum stays below 2^53.\<close>
lemma fadd_whole_numbers:
  assumes "0 \<le> m" "0 \<le> n" "m + n < 2 ^ 53"
  shows "fadd (of_int m) (of_int n) = of_int m + of_int n"
proof (cases "m + n = 0")
  case True
  with assms have "m = 0" "n = 0" by auto
  then show ?thesis by (simp add: fadd_def)
next
  case False
  with assms have "0 < m + n" by simp
  from float_round_int[OF this assms(3)] show ?thesis
    by (simp add: fadd_def)
qed

lemma fadd_nats:
  assumes "x \<in> \<nat>" "y \<in> \<nat>" "x + y < 2 ^ 53"
  shows "fadd x y = x + y"
proof -
  from assms(1,2) obtain m n :: nat where x: "x = of_nat m" and y: "y = of_nat n"
    by (auto simp: Nats_def)
  from assms(3) have "(of_int (int m + int n) :: rat) < of_int (2 ^ 53)"
    by (simp add: x y)
  then have "int m + int n < 2 ^ 53" by (simp only: of_int_less_iff)
  from fadd_whole_numbers[OF _ _ this] show ?thesis
    by (simp add: x y)
qed

lemma exact_total_nats:
  assumes "\<forall>d\<in>set docs. d ''type'' = Some (VStr ty) \<longrightarrow> amount_or_zero d \<in> \<nat>"
    and "acc \<in> \<nat>"
    and "acc + sum_list (map amount_or_zero (filter (\<lambda>d. d ''type'' = Some (VStr ty)) docs)) < 2 ^ 53"
  shows "exact_total ty acc docs"
  using assms
proof (induction docs arbitrary: acc)
  case Nil
  then show ?case by simp
next
  case (Cons d docs)
  show ?case
  proof (cases "d ''type'' = Some (VStr ty)")
    case False
    with Cons show ?thesis by simp
  next
    case True
    let ?rest = "sum_list (map amount_or_zero (filter (\<lambda>d. d ''type'' = Some (VStr ty)) docs))"
    from True Cons.prems(1) have a: "amount_or_zero d \<in> \<nat>" by simp
    have "\<forall>d\<in>set (filter (\<lambda>d. d ''type'' = Some (VStr ty)) docs). amount_or_zero d \<in> \<nat>"
      using Cons.prems(1) by simp
    then have "0 \<le> ?rest"
      by (intro sum_list_nonneg) (auto simp: Nats_def)
    with True Cons.prems(3) have "acc + amount_or_zero d < 2 ^ 53" by simp
    with Cons.prems(2) a have e: "fadd acc (amount_or_zero d) = acc + amount_or_zero d"
      by (intro fadd_nats)
    from Cons.prems(2) a have n: "acc + amount_or_zero d \<in> \<nat>" by simp
    from True Cons.prems(3) have "acc + amount_or_zero d + ?rest < 2 ^ 53" by (simp add: add.assoc)
    with Cons.IH[OF _ n] Cons.prems(1) have "exact_total ty (acc + amount_or_zero d) docs" by simp
    with True e show ?thesis by simp
  qed
qed

lemma dict_get_nats:
  "\<forall>v\<in>snd ` set m. v \<in> \<nat> \<Longrightarrow> dict_get m k 0 \<in> \<nat> \<and> dict_get m k 0 \<le> (sum_list (map snd m) :: rat)"
proof (induction m)
  case Nil
  then show ?case by (simp add: dict_get_def)
next
  case (Cons p m)
  obtain k' v where p: "p = (k', v)" by (cases p)
  from Cons.prems have v: "v \<in> \<nat>" and m: "\<forall>v\<in>snd ` set m. v \<in> \<nat>" by (auto simp: p)
  from v have v0: "0 \<le> v" by (auto simp: Nats_def)
  from m have "0 \<le> sum_list (map snd m)"
    by (intro sum_list_nonneg) (auto simp: Nats_def)
  with Cons.IH[OF m] v v0 show ?case
    by (auto simp: p dict_get_def)
qed

lemma update_nats:
  "\<forall>v\<in>snd ` set m. v \<in> \<nat> \<Longrightarrow> w \<in> \<nat> \<Longrightarrow> \<forall>v\<in>snd ` set (AList.update k w m). v \<in> \<nat>"
  by (induction m) auto

lemma exact_by_cat_nats:
  assumes "\<forall>d\<in>set docs. d ''type'' = Some (VStr ''expense'') \<longrightarrow> amount_or_zero d \<in> \<nat>"
    and "\<forall>v\<in>snd ` set by_cat. v \<in> \<nat>"
    and "sum_list (map snd by_cat) +
         sum_list (map amount_or_zero (filter (\<lambda>d. d ''type'' = Some (VStr ''expense'')) docs)) < 2 ^ 53"
  shows "exact_by_cat by_cat docs"
  using assms
proof (induction docs arbitrary: by_cat)
  case Nil
  then show ?case by simp
next
  case (Cons d docs)
  show ?case
  proof (cases "d ''type'' = Some (VStr ''expense'')")
    case False
    with Cons show ?thesis by simp
  next
    case True
    let ?rest = "sum_list (map amount_or_zero (filter (\<lambda>d. d ''type'' = Some (VStr ''expense'')) docs))"
    let ?cat = "case d ''category'' of None \<Rightarrow> VStr ''Other'' | Some c \<Rightarrow> c"
    let ?old = "dict_get by_cat ?cat 0"
    let ?a = "amount_or_zero d"
    from True Cons.prems(1) have a: "?a \<in> \<nat>" by simp
    from dict_get_nats[OF Cons.prems(2)] have old: "?old \<in> \<nat>" and le: "?old \<le> sum_list (map snd by_cat)"
      by simp_all
    have "\<forall>d\<in>set (filter (\<lambda>d. d ''type'' = Some (VStr ''expense'')) docs). amount_or_zero d \<in> \<nat>"
      using Cons.prems(1) by simp
    then have "0 \<le> ?rest"
      by (intro sum_list_nonneg) (auto simp: Nats_def)
    with True Cons.prems(3) le have "?old + ?a < 2 ^ 53" by simp
    with old a have e: "fadd ?old ?a = ?old + ?a" by (intro fadd_nats)
    from old a have n: "?old + ?a \<in> \<nat>" by simp
    have upd: "\<forall>v\<in>snd ` set (AList.update ?cat (?old + ?a) by_cat). v \<in> \<nat>"
      using Cons.prems(2) n by (rule update_nats)
    from True Cons.prems(3)
    have "sum_list (map snd (AList.update ?cat (?old + ?a) by_cat)) + ?rest < 2 ^ 53"
      by (simp add: sum_update_add add.assoc)
    with Cons.IH[OF _ upd] Cons.prems(1)
    have "exact_by_cat (AList.update ?cat (?old + ?a) by_cat) docs" by simp
    with True e show ?thesis by (simp add: Let_def)
  qed
qed

text \<open>Amounts that are whole numbers, not negative, with a total below \<open>2 ^ 53\<close>, add exactly.\<close>

lemma whole_amounts_exact:
  assumes "\<forall>d\<in>set docs. d ''type'' = Some (VStr ''expense'') \<longrightarrow> amount_or_zero d \<in> \<nat>"
    and "sum_list (map amount_or_zero (filter (\<lambda>d. d ''type'' = Some (VStr ''expense'')) docs)) < 2 ^ 53"
  shows "exact_total ''expense'' 0 docs \<and> exact_by_cat [] docs"
  using exact_total_nats[OF assms(1), of 0] exact_by_cat_nats[OF assms(1), of "[]"] assms(2)
  by simp

lemma rounding_amounts:
  "float_round (1 / 10) = 3602879701896397 / 36028797018963968 \<and>
   float_round (4 / 10) = 3602879701896397 / 9007199254740992"
  by code_simp

text \<open>
  Claim C6, as stated, fails. With the expenses 0.1 and 0.4 of the category \<^verbatim>\<open>A\<close> and 0.1 of the
  category \<^verbatim>\<open>B\<close>, stored in the order 0.1 (\<^verbatim>\<open>A\<close>), 0.1 (\<^verbatim>\<open>B\<close>), 0.4 (\<^verbatim>\<open>A\<close>), the summary has the
  expense total \<^verbatim>\<open>0.6000000000000001\<close> and the categories \<^verbatim>\<open>A\<close> at \<^verbatim>\<open>0.5\<close> and \<^verbatim>\<open>B\<close> at \<^verbatim>\<open>0.1\<close>.
  The values of the categories do not add up to the total, neither as exact numbers nor as
  floats added in the order of the mapping (which gives \<^verbatim>\<open>0.6\<close>).
\<close>

theorem summary_categories_sum_counterexample:
  "(let s = \<lparr>income = 0, expense = 1351079888211149 / 2251799813685248,
             net = - (1351079888211149 / 2251799813685248),
             categories = [(VStr ''A'', 1 / 2), (VStr ''B'', 3602879701896397 / 36028797018963968)],
             budgets = []\<rparr>
    in fst (summary None rounding_store) = Inr s \<and>
       sum_list (map snd (categories s)) \<noteq> expense s \<and>
       foldl fadd 0 (map snd (categories s)) = 5404319552844595 / 9007199254740992 \<and>
       foldl fadd 0 (map snd (categories s)) \<noteq> expense s)"
  by code_simp

text \<open>
  Claim C6, amended. For every summary that is returned, with or without a month filter: if
  none of the additions that build the expense total and the values of the categories from
  the selected transactions is rounded, the values of its \<open>categories\<close> mapping add up to its
  \<open>expense\<close> total. (By \<open>whole_amounts_exact\<close> this is so when the amounts of the selected
  expenses are whole numbers, none negative, with a total below \<open>2 ^ 53\<close>.)
\<close>

theorem summary_categories_sum_exact:
  assumes "summary mo st = (Inr s, st')"
    and "month_filter mo = Inr flt"
    and "exact_total ''expense'' 0 (filter (matches flt) (collections st ''transaction''))"
    and "exact_by_cat [] (filter (matches flt) (collections st ''transaction''))"
  shows "sum_list (map snd (categories s)) = expense s"
proof -
  let ?docs = "filter (matches flt) (collections st ''transaction'')"
  from summary_Inr[OF assms(1)] assms(2) have
    "aggregate ?docs = Inr (income s, expense s, categories s)"
    by auto
  then have "sum_amounts ''expense'' 0 ?docs = Inr (expense s)"
    and "by_cat_loop [] ?docs = Inr (categories s)"
    by (auto simp: aggregate_def split: sum.splits)
  from by_cat_loop_sum[OF this assms(3,4)] show ?thesis by simp
qed

lemma example_summary_all_time:
  "fst (summary None example_store) =
     Inr \<lparr>income = 3000, expense = 2585 / 2, net = 3415 / 2,
          categories = [(VStr ''gifts'', 15), (VStr ''groceries'', 70), (VStr ''rent'', 1200),
                        (VStr ''Other'', 15 / 2)],
          budgets = [(VStr ''groceries'', VNum 10), (VStr ''rent'', VNum 1500)]\<rparr>"
  by code_simp

lemma example_all_time_exact:
  "exact_total ''expense'' 0 (filter (matches []) (collections example_store ''transaction'')) \<and>
   exact_by_cat [] (filter (matches []) (collections example_store ''transaction''))"
  by code_simp

theorem summary_categories_sum_exact_witness:
  "fst (summary None example_store) =
     Inr \<lparr>income = 3000, expense = 2585 / 2, net = 3415 / 2,
          categories = [(VStr ''gifts'', 15), (VStr ''groceries'', 70), (VStr ''rent'', 1200),
                        (VStr ''Other'', 15 / 2)],
          budgets = [(VStr ''groceries'', VNum 10), (VStr ''rent'', VNum 1500)]\<rparr> \<and>
   exact_total ''expense'' 0 (filter (matches []) (collections example_store ''transaction'')) \<and>
   exact_by_cat [] (filter (matches []) (collections example_store ''transaction'')) \<and>
   sum_list (map snd [(VStr ''gifts'', 15), (VStr ''groceries'', 70), (VStr ''rent'', 1200),
                      (VStr ''Other'', 15 / 2 :: rat)]) = 2585 / 2"
proof -
  let ?s = "\<lparr>income = 3000, expense = 2585 / 2, net = 3415 / 2,
          categories = [(VStr ''gifts'', 15), (VStr ''groceries'', 70), (VStr ''rent'', 1200),
                        (VStr ''Other'', 15 / 2)],
          budgets = [(VStr ''groceries'', VNum 10), (VStr ''rent'', VNum 1500)]\<rparr>"
  have run: "summary None example_store = (Inr ?s, snd (summary None example_store))"
    using example_summary_all_time by (metis prod.collapse)
  have flt: "month_filter None = Inr []" by simp
  have "sum_list (map snd (categories ?s)) = expense ?s"
    using summary_categories_sum_exact[OF run flt] example_all_time_exact by blast
  then show ?thesis
    using example_summary_all_time example_all_time_exact by simp
qed

subsection \<open>Absent fields of a transaction\<close>

text \<open>
  Two documents that agree on the type, on \<^verbatim>\<open>d.get("amount", 0)\<close> as an addend and on
  \<^verbatim>\<open>d.get("category", "Other")\<close> are summed alike, wherever they stand in the sequence.
\<close>

lemma sum_amounts_cong:
  "d ''type'' = d' ''type'' \<Longrightarrow> (\<And>a. add_amount a d = add_amount a d') \<Longrightarrow>
     sum_amounts ty acc (pre @ d # post) = sum_amounts ty acc (pre @ d' # post)"
  by (induction pre arbitrary: acc) (auto split: sum.splits)

lemma by_cat_loop_cong:
  "d ''type'' = d' ''type'' \<Longrightarrow> (\<And>a. add_amount a d = add_amount a d') \<Longrightarrow>
   (case d ''category'' of None \<Rightarrow> VStr ''Other'' | Some c \<Rightarrow> c) =
   (case d' ''category'' of None \<Rightarrow> VStr ''Other'' | Some c \<Rightarrow> c) \<Longrightarrow>
     by_cat_loop acc (pre @ d # post) = by_cat_loop acc (pre @ d' # post)"
  by (induction pre arbitrary: acc) (auto simp: Let_def split: sum.splits)

lemma aggregate_cong:
  "d ''type'' = d' ''type'' \<Longrightarrow> (\<And>a. add_amount a d = add_amount a d') \<Longrightarrow>
   (case d ''category'' of None \<Rightarrow> VStr ''Other'' | Some c \<Rightarrow> c) =
   (case d' ''category'' of None \<Rightarrow> VStr ''Other'' | Some c \<Rightarrow> c) \<Longrightarrow>
     aggregate (pre @ d # post) = aggregate (pre @ d' # post)"
proof -
  assume ty: "d ''type'' = d' ''type''" and am: "\<And>a. add_amount a d = add_amount a d'"
    and cat: "(case d ''category'' of None \<Rightarrow> VStr ''Other'' | Some c \<Rightarrow> c) =
              (case d' ''category'' of None \<Rightarrow> VStr ''Other'' | Some c \<Rightarrow> c)"
  have "sum_amounts ''income'' 0 (pre @ d # post) = sum_amounts ''income'' 0 (pre @ d' # post)"
    and "sum_amounts ''expense'' 0 (pre @ d # post) = sum_amounts ''expense'' 0 (pre @ d' # post)"
    using ty am by (rule sum_amounts_cong)+
  moreover have "by_cat_loop [] (pre @ d # post) = by_cat_loop [] (pre @ d' # post)"
    using ty am cat by (rule by_cat_loop_cong)
  ultimately show ?thesis
    by (simp only: aggregate_def)
qed

text \<open>
  A running total is 0 or the result of an addition, a float either way; adding the 0 of an
  absent amount to it changes nothing.
\<close>

lemma add_amount_float:
  "add_amount acc d = Inr acc' \<Longrightarrow> float_round acc' = acc'"
  by (auto simp: add_amount_def fadd_def float_round_idem split: option.splits pyval.splits)

lemma sum_amounts_skip:
  "float_round acc = acc \<Longrightarrow> d ''amount'' = None \<Longrightarrow>
     sum_amounts ty acc (pre @ d # post) = sum_amounts ty acc (pre @ post)"
proof (induction pre arbitrary: acc)
  case Nil
  then have "fadd acc 0 = acc" by (simp add: fadd_def)
  with Nil show ?case by (simp add: add_amount_def)
next
  case (Cons x pre)
  then show ?case
    by (auto dest: add_amount_float split: sum.splits)
qed

text \<open>
  Claim C10. A fetched document of type \<^verbatim>\<open>expense\<close> without a \<^verbatim>\<open>category\<close> field is aggregated
  exactly as the same document with the category \<^verbatim>\<open>"Other"\<close>: its amount goes to the entry
  \<^verbatim>\<open>Other\<close> of the category breakdown. A document without an \<^verbatim>\<open>amount\<close> field is aggregated
  exactly as the same document with the amount 0, and the income and expense totals are what
  they are without the document. The equations are between the results of lines 108 to 114
  on the whole fetched sequence \<open>pre @ d # post\<close>, errors included.
\<close>

theorem aggregate_missing_fields:
  "(d ''type'' = Some (VStr ''expense'') \<and> d ''category'' = None \<longrightarrow>
      aggregate (pre @ d # post) = aggregate (pre @ d(''category'' \<mapsto> VStr ''Other'') # post)) \<and>
   (d ''amount'' = None \<longrightarrow>
      aggregate (pre @ d # post) = aggregate (pre @ d(''amount'' \<mapsto> VNum 0) # post) \<and>
      sum_amounts ''income'' 0 (pre @ d # post) = sum_amounts ''income'' 0 (pre @ post) \<and>
      sum_amounts ''expense'' 0 (pre @ d # post) = sum_amounts ''expense'' 0 (pre @ post))"
proof (intro conjI impI)
  assume "d ''type'' = Some (VStr ''expense'') \<and> d ''category'' = None"
  then show "aggregate (pre @ d # post) = aggregate (pre @ d(''category'' \<mapsto> VStr ''Other'') # post)"
    by (intro aggregate_cong) (simp_all add: add_amount_def)
next
  assume "d ''amount'' = None"
  then show "aggregate (pre @ d # post) = aggregate (pre @ d(''amount'' \<mapsto> VNum 0) # post)"
    by (intro aggregate_cong) (simp_all add: add_amount_def)
next
  assume "d ''amount'' = None"
  then show "sum_amounts ''income'' 0 (pre @ d # post) = sum_amounts ''income'' 0 (pre @ post)"
    by (intro sum_amounts_skip) simp_all
next
  assume "d ''amount'' = None"
  then show "sum_amounts ''expense'' 0 (pre @ d # post) = sum_amounts ''expense'' 0 (pre @ post)"
    by (intro sum_amounts_skip) simp_all
qed

text \<open>
  Evaluated on documents of the example state: the expense of 7.50 without a category is
  found under \<^verbatim>\<open>Other\<close>, and the expense without an amount leaves the totals as they are.
\<close>

lemma example_uncategorised:
  "aggregate ([txn_doc 1 50 ''expense'' ''groceries'' (midnight 2025 1 1)] @ uncategorised_txn #
              [txn_doc 2 3000 ''income'' ''salary'' (midnight 2025 1 15)]) =
     Inr (3000, 115 / 2, [(VStr ''groceries'', 50), (VStr ''Other'', 15 / 2)])"
  by code_simp

lemma example_amountless:
  "aggregate ([] @ amountless_txn # [txn_doc 1 50 ''expense'' ''groceries'' (midnight 2025 1 1)]) =
     Inr (0, 50, [(VStr ''groceries'', 50)])"
  by code_simp

theorem aggregate_missing_fields_witness:
  "uncategorised_txn ''type'' = Some (VStr ''expense'') \<and> uncategorised_txn ''category'' = None \<and>
   aggregate ([txn_doc 1 50 ''expense'' ''groceries'' (midnight 2025 1 1)] @
              uncategorised_txn(''category'' \<mapsto> VStr ''Other'') #
              [txn_doc 2 3000 ''income'' ''salary'' (midnight 2025 1 15)]) =
     Inr (3000, 115 / 2, [(VStr ''groceries'', 50), (VStr ''Other'', 15 / 2)]) \<and>
   amountless_txn ''amount'' = None \<and>
   aggregate ([] @ amountless_txn(''amount'' \<mapsto> VNum 0) #
              [txn_doc 1 50 ''expense'' ''groceries'' (midnight 2025 1 1)]) =
     Inr (0, 50, [(VStr ''groceries'', 50)])"
proof -
  have a: "uncategorised_txn ''type'' = Some (VStr ''expense'') \<and> uncategorised_txn ''category'' = None"
    by (simp add: uncategorised_txn_def txn_doc_def)
  have b: "amountless_txn ''amount'' = None"
    by (simp add: amountless_txn_def)
  from a aggregate_missing_fields[of uncategorised_txn] example_uncategorised
  have 1: "aggregate ([txn_doc 1 50 ''expense'' ''groceries'' (midnight 2025 1 1)] @
              uncategorised_txn(''category'' \<mapsto> VStr ''Other'') #
              [txn_doc 2 3000 ''income'' ''salary'' (midnight 2025 1 15)]) =
     Inr (3000, 115 / 2, [(VStr ''groceries'', 50), (VStr ''Other'', 15 / 2)])"
    by metis
  from b aggregate_missing_fields[of amountless_txn] example_amountless
  have 2: "aggregate ([] @ amountless_txn(''amount'' \<mapsto> VNum 0) #
              [txn_doc 1 50 ''expense'' ''groceries'' (midnight 2025 1 1)]) =
     Inr (0, 50, [(VStr ''groceries'', 50)])"
    by metis
  from a b 1 2 show ?thesis by blast
qed

subsection \<open>A month that cannot be read\<close>

lemma parse_month_Inr_iff:
  "parse_month M = Inr (y, m) \<longleftrightarrow>
     (\<exists>a b. split_on (CHR ''-'') M = [a, b] \<and> py_int a = Some y \<and> py_int b = Some m)"
  by (auto simp: parse_month_def split: list.splits option.splits)

text \<open>
  Claim C9. Let the \<^verbatim>\<open>month\<close> of GET \<^verbatim>\<open>/api/summary\<close> be a non-empty string. If splitting it at
  \<^verbatim>\<open>-\<close> does not give exactly two parts that \<^verbatim>\<open>int\<close> accepts, or if it does and the month
  number is below 1 or above 12, the handler raises \<^verbatim>\<open>HTTPException\<close> with the status 500
  (not the validation status 422) whose detail is the text of the exception \<open>e\<close> that lines
  100 to 105 raised; the store is not touched.
\<close>

theorem summary_bad_month:
  assumes "M \<noteq> []"
    and "(\<forall>a b y m. split_on (CHR ''-'') M = [a, b] \<longrightarrow> py_int a = Some y \<longrightarrow> py_int b \<noteq> Some m) \<or>
         (\<exists>a b y m. split_on (CHR ''-'') M = [a, b] \<and> py_int a = Some y \<and> py_int b = Some m \<and>
                    (m < 1 \<or> 12 < m))"
  shows "\<exists>e. summary (Some M) st = (Inl (HTTPException 500 e), st) \<and> month_range M = Inl e"
proof -
  have "\<exists>e. month_range M = Inl e"
    using assms(2)
  proof
    assume "\<forall>a b y m. split_on (CHR ''-'') M = [a, b] \<longrightarrow> py_int a = Some y \<longrightarrow> py_int b \<noteq> Some m"
    then have "\<forall>y m. parse_month M \<noteq> Inr (y, m)"
      by (auto simp: parse_month_Inr_iff)
    then show ?thesis
      by (cases "parse_month M") (auto simp: month_range_def)
  next
    assume "\<exists>a b y m. split_on (CHR ''-'') M = [a, b] \<and> py_int a = Some y \<and> py_int b = Some m \<and>
                    (m < 1 \<or> 12 < m)"
    then obtain y m where "parse_month M = Inr (y, m)" and "m < 1 \<or> 12 < m"
      using parse_month_Inr_iff by blast
    then show ?thesis
      by (auto simp: month_range_def datetime_ymd_def)
  qed
  then obtain e where "month_range M = Inl e" ..
  with assms(1) show ?thesis
    by (auto simp: summary_def summary_body_def server_error_def)
qed

lemma example_split: "split_on (CHR ''-'') ''2025-13'' = [''2025'', ''13'']" by code_simp
lemma example_int_year: "py_int ''2025'' = Some 2025" by code_simp
lemma example_int_month: "py_int ''13'' = Some 13" by code_simp
lemma example_split_word: "split_on (CHR ''-'') ''abc'' = [''abc'']" by code_simp
lemma example_range_month13: "month_range ''2025-13'' = Inl (DateRangeError ''month'')" by code_simp
lemma example_range_word: "month_range ''abc'' = Inl (IntLiteralError ''abc'')" by code_simp

text \<open>
  The separator \<^verbatim>\<open>\x1c\<close> is white space for \<^verbatim>\<open>str.isspace\<close> but not for \<^verbatim>\<open>int\<close>: a month that
  begins with it is not read. The no-break space \<^verbatim>\<open>\xa0\<close> is skipped: such a month is read, and
  no budget has it as its month.
\<close>

lemma example_split_separator:
  "split_on (CHR ''-'') (CHR 0x1C # ''2025-01'') = [CHR 0x1C # ''2025'', ''01'']"
  by code_simp

lemma example_int_separator: "py_int (CHR 0x1C # ''2025'') = None" by code_simp

lemma example_range_separator:
  "month_range (CHR 0x1C # ''2025-01'') = Inl (IntLiteralError (CHR 0x1C # ''2025''))"
  by code_simp

lemma example_int_no_break_space: "py_int (CHR 0xA0 # ''01'') = Some 1" by code_simp

lemma example_month_no_break_space:
  "fst (summary (Some (''2025-'' @ [CHR 0xA0] @ ''01'')) example_store) =
     Inr \<lparr>income = 3000, expense = 2515 / 2, net = 3485 / 2,
          categories = [(VStr ''groceries'', 50), (VStr ''rent'', 1200), (VStr ''Other'', 15 / 2)],
          budgets = []\<rparr>"
  by code_simp

theorem summary_bad_month_witness:
  "summary (Some ''2025-13'') example_store =
     (Inl (HTTPException 500 (DateRangeError ''month'')), example_store) \<and>
   summary (Some ''abc'') example_store =
     (Inl (HTTPException 500 (IntLiteralError ''abc'')), example_store) \<and>
   summary (Some (CHR 0x1C # ''2025-01'')) example_store =
     (Inl (HTTPException 500 (IntLiteralError (CHR 0x1C # ''2025''))), example_store)"
proof -
  have "\<exists>a b y m. split_on (CHR ''-'') ''2025-13'' = [a, b] \<and> py_int a = Some y \<and>
          py_int b = Some m \<and> (m < 1 \<or> 12 < m)"
    using example_split example_int_year example_int_month by auto
  then have 1: "summary (Some ''2025-13'') example_store =
     (Inl (HTTPException 500 (DateRangeError ''month'')), example_store)"
    using summary_bad_month[of "''2025-13''" example_store] example_range_month13 by auto
  have "\<forall>a b y m. split_on (CHR ''-'') ''abc'' = [a, b] \<longrightarrow> py_int a = Some y \<longrightarrow> py_int b \<noteq> Some m"
    using example_split_word by simp
  then have 2: "summary (Some ''abc'') example_store =
     (Inl (HTTPException 500 (IntLiteralError ''abc'')), example_store)"
    using summary_bad_month[of "''abc''" example_store] example_range_word by auto
  have "\<forall>a b y m. split_on (CHR ''-'') (CHR 0x1C # ''2025-01'') = [a, b] \<longrightarrow>
          py_int a = Some y \<longrightarrow> py_int b \<noteq> Some m"
    using example_split_separator example_int_separator by simp
  then have 3: "summary (Some (CHR 0x1C # ''2025-01'')) example_store =
     (Inl (HTTPException 500 (IntLiteralError (CHR 0x1C # ''2025''))), example_store)"
    using summary_bad_month[of "CHR 0x1C # ''2025-01''" example_store] example_range_separator
    by auto
  from 1 2 3 show ?thesis by blast
qed

subsection \<open>The order of the chat rules\<close>

text \<open>
  Claim C4. When the summary can be computed, the reply of POST \<^verbatim>\<open>/api/chat\<close> is chosen from
  the lower-cased message by the first rule that matches, in this order: \<^verbatim>\<open>spend\<close> or
  \<^verbatim>\<open>expense\<close> gives the spending reply, else \<^verbatim>\<open>income\<close> the income reply, else \<^verbatim>\<open>budget\<close> the
  budget reply (a server error when a limit cannot be formatted), else the fixed help text.
  So a message with both \<^verbatim>\<open>income\<close> and \<^verbatim>\<open>spend\<close> gets the spending reply, and \<^verbatim>\<open>hello\<close> the
  help text.
\<close>

theorem chat_intent_order:
  assumes "summary (month req) st = (Inr s, st1)"
  shows "fst (chat render req st) =
     (if contains ''spend'' (lower (message req)) \<or> contains ''expense'' (lower (message req))
        then Inr (spending_reply render (month req) s, s)
      else if contains ''income'' (lower (message req))
        then Inr (income_reply (month req) s, s)
      else if contains ''budget'' (lower (message req))
        then (case budget_reply render s of
                Inl e \<Rightarrow> Inl (HTTPException 500 e)
              | Inr reply \<Rightarrow> Inr (reply, s))
      else Inr (help_text, s))"
  using assms
  by (auto simp: chat_def chat_body_def make_reply_def server_error_def Let_def split: sum.splits)

lemma scenario_summary_all_time: "fst (summary None scenario_store) =
   Inr \<lparr>income = 0, expense = 50, net = - 50, categories = [(VStr ''groceries'', 50)],
        budgets = [(VStr ''groceries'', VNum 40)]\<rparr>"
  by code_simp

lemma example_hello: "contains ''spend'' (lower ''hello'') = False \<and> contains ''expense'' (lower ''hello'') = False \<and>
   contains ''income'' (lower ''hello'') = False \<and> contains ''budget'' (lower ''hello'') = False"
  by code_simp

lemma example_both_words: "contains ''spend'' (lower ''My INCOME, and what I Spend'') = True \<and>
     contains ''income'' (lower ''My INCOME, and what I Spend'') = True"
  by code_simp

lemma example_spending_reply: "spending_reply example_render None
       \<lparr>income = 0, expense = 50, net = - 50, categories = [(VStr ''groceries'', 50)],
        budgets = [(VStr ''groceries'', VNum 40)]\<rparr> =
     ''For all time, you spent $50.00. Your top spending category is groceries at $50.00. ''"
  by code_simp

theorem chat_intent_order_witness:
  "fst (chat example_render \<lparr>message = ''hello'', month = None\<rparr> scenario_store) =
     Inr (help_text,
          \<lparr>income = 0, expense = 50, net = - 50, categories = [(VStr ''groceries'', 50)],
           budgets = [(VStr ''groceries'', VNum 40)]\<rparr>) \<and>
   fst (chat example_render \<lparr>message = ''My INCOME, and what I Spend'', month = None\<rparr> scenario_store) =
     Inr (''For all time, you spent $50.00. Your top spending category is groceries at $50.00. '',
          \<lparr>income = 0, expense = 50, net = - 50, categories = [(VStr ''groceries'', 50)],
           budgets = [(VStr ''groceries'', VNum 40)]\<rparr>)"
proof -
  let ?s = "\<lparr>income = 0, expense = 50, net = - 50, categories = [(VStr ''groceries'', 50)],
           budgets = [(VStr ''groceries'', VNum 40)]\<rparr>"
  have run: "summary None scenario_store = (Inr ?s, snd (summary None scenario_store))"
    using scenario_summary_all_time by (metis prod.collapse)
  have 1: "fst (chat example_render \<lparr>message = ''hello'', month = None\<rparr> scenario_store) =
     Inr (help_text, ?s)"
    using chat_intent_order[of "\<lparr>message = ''hello'', month = None\<rparr>" scenario_store ?s _ example_render]
      run example_hello by simp
  have 2: "fst (chat example_render \<lparr>message = ''My INCOME, and what I Spend'', month = None\<rparr> scenario_store) =
     Inr (''For all time, you spent $50.00. Your top spending category is groceries at $50.00. '', ?s)"
    using chat_intent_order[of "\<lparr>message = ''My INCOME, and what I Spend'', month = None\<rparr>" scenario_store ?s _ example_render]
      run example_both_words example_spending_reply by simp
  from 1 2 show ?thesis by blast
qed

subsection \<open>Chat messages are stored on a best-effort basis\<close>

text \<open>
  Claim C7. Let the two fetches of the summary go through. Whatever happens to the two
  inserts of the chat messages afterwards (\<open>later\<close> is any schedule of outages for them),
  the response of POST \<^verbatim>\<open>/api/chat\<close> is the one it gives when no call to the store fails:
  an exception of \<^verbatim>\<open>create_document\<close> is swallowed and changes neither the reply nor the
  summary.
\<close>

theorem chat_reply_ignores_persistence:
  "fst (chat render req (st\<lparr>outages := None # None # later\<rparr>)) =
   fst (chat render req (st\<lparr>outages := []\<rparr>))"
  by (auto simp: chat_def chat_body_def summary_def summary_body_def server_error_def
        get_documents_def reach_def Let_def split: sum.splits prod.splits)

text \<open>
  In the scenario state the first insert fails: the reply is returned all the same, and no
  chat message is stored.
\<close>

lemma scenario_chat_budget:
  "fst (chat example_render \<lparr>message = ''how is my budget?'', month = Some ''2025-01''\<rparr>
          (scenario_store\<lparr>outages := []\<rparr>)) =
     Inr (''Budgets:'' @ [CHR 0x0A] @ ''- groceries: $50.00 / $40.00 (over)'',
          \<lparr>income = 0, expense = 50, net = - 50, categories = [(VStr ''groceries'', 50)],
           budgets = [(VStr ''groceries'', VNum 40)]\<rparr>)"
  by code_simp

lemma scenario_chat_not_logged:
  "map (\<lambda>d. d ''role'') (collections (snd (chat example_render \<lparr>message = ''how is my budget?'', month = Some ''2025-01''\<rparr>
          (scenario_store\<lparr>outages := [None, None, Some ''store is down'']\<rparr>))) ''chatmessage'') = []"
  by code_simp

theorem chat_reply_ignores_persistence_witness:
  "fst (chat example_render \<lparr>message = ''how is my budget?'', month = Some ''2025-01''\<rparr>
          (scenario_store\<lparr>outages := None # None # [Some ''store is down'']\<rparr>)) =
     Inr (''Budgets:'' @ [CHR 0x0A] @ ''- groceries: $50.00 / $40.00 (over)'',
          \<lparr>income = 0, expense = 50, net = - 50, categories = [(VStr ''groceries'', 50)],
           budgets = [(VStr ''groceries'', VNum 40)]\<rparr>)"
  using chat_reply_ignores_persistence[where render = example_render
      and req = "\<lparr>message = ''how is my budget?'', month = Some ''2025-01''\<rparr>"
      and st = scenario_store and later = "[Some ''store is down'']"] scenario_chat_budget
  by simp

subsection \<open>The identifier in the listings\<close>

lemma public_id_no_id: "public_id render d ''_id'' = None"
  by (auto simp: public_id_def split: option.splits)

lemma public_id_id: "d ''_id'' = Some v \<Longrightarrow> public_id render d ''id'' = Some (VStr (py_str render v))"
  by (auto simp: public_id_def split: option.splits)

lemma public_date_id: "public_date d ''_id'' = d ''_id''"
  by (auto simp: public_date_def split: option.splits pyval.splits)

text \<open>
  Claim C8. The items of GET \<^verbatim>\<open>/api/transactions\<close> and of GET \<^verbatim>\<open>/api/budgets\<close> are the fetched
  documents in their order; no item has a field \<^verbatim>\<open>_id\<close>, and where the fetched document had
  one the item has the field \<^verbatim>\<open>id\<close> with the text of that identifier.
\<close>

theorem listings_strip_store_id:
  "(list_transactions render limit st = (Inr items, st') \<longrightarrow>
      (\<exists>docs. get_documents ''transaction'' [] limit st = (Inr docs, st') \<and>
         length items = length docs \<and>
         (\<forall>i < length docs. (items ! i) ''_id'' = None \<and>
            (\<forall>v. (docs ! i) ''_id'' = Some v \<longrightarrow>
               (items ! i) ''id'' = Some (VStr (py_str render v)))))) \<and>
   (list_budgets render mo st = (Inr items, st') \<longrightarrow>
      (\<exists>docs. get_documents ''budget'' (budget_filter mo) None st = (Inr docs, st') \<and>
         length items = length docs \<and>
         (\<forall>i < length docs. (items ! i) ''_id'' = None \<and>
            (\<forall>v. (docs ! i) ''_id'' = Some v \<longrightarrow>
               (items ! i) ''id'' = Some (VStr (py_str render v))))))"
  by (auto simp: list_transactions_def list_budgets_def server_error_def
        public_id_no_id public_id_id public_date_id split: prod.splits sum.splits)

lemma scenario_fetch_transactions:
  "get_documents ''transaction'' [] (Some 100) scenario_store =
     (Inr [txn_doc 0 50 ''expense'' ''groceries'' (midnight 2025 1 5)], scenario_store)"
  by (simp add: get_documents_def reach_def scenario_store_def matches_def)

lemma scenario_fetch_budgets:
  "get_documents ''budget'' (budget_filter (Some ''2025-01'')) None scenario_store =
     (Inr [budget_doc 1 ''2025-01'' ''groceries'' 40], scenario_store)"
  by (simp add: get_documents_def reach_def scenario_store_def matches_def budget_doc_def)

lemma example_render_ids: "py_str example_render (VOid 0) = ''oid-0'' \<and> py_str example_render (VOid 1) = ''oid-1''"
  by code_simp

theorem listings_strip_store_id_witness:
  "(\<exists>items. list_transactions example_render (Some 100) scenario_store = (Inr items, scenario_store) \<and>
      length items = 1 \<and> (items ! 0) ''_id'' = None \<and> (items ! 0) ''id'' = Some (VStr ''oid-0'')) \<and>
   (\<exists>items. list_budgets example_render (Some ''2025-01'') scenario_store = (Inr items, scenario_store) \<and>
      length items = 1 \<and> (items ! 0) ''_id'' = None \<and> (items ! 0) ''id'' = Some (VStr ''oid-1''))"
proof -
  let ?t = "txn_doc 0 50 ''expense'' ''groceries'' (midnight 2025 1 5)"
  let ?b = "budget_doc 1 ''2025-01'' ''groceries'' 40"
  have t: "list_transactions example_render (Some 100) scenario_store =
      (Inr [public_id example_render (public_date ?t)], scenario_store)"
    by (simp add: list_transactions_def scenario_fetch_transactions server_error_def)
  have b: "list_budgets example_render (Some ''2025-01'') scenario_store =
      (Inr [public_id example_render ?b], scenario_store)"
    unfolding list_budgets_def scenario_fetch_budgets by (simp add: server_error_def)
  have tid: "?t ''_id'' = Some (VOid 0)" by (simp add: txn_doc_def)
  have bid: "?b ''_id'' = Some (VOid 1)" by (simp add: budget_doc_def)
  from listings_strip_store_id[where render = example_render and limit = "Some 100"
      and st = scenario_store and items = "[public_id example_render (public_date ?t)]"
      and st' = scenario_store] t scenario_fetch_transactions tid example_render_ids
  have 1: "([public_id example_render (public_date ?t)] ! 0) ''_id'' = None \<and>
           ([public_id example_render (public_date ?t)] ! 0) ''id'' = Some (VStr ''oid-0'')"
    by auto
  from listings_strip_store_id[where render = example_render and mo = "Some ''2025-01''"
      and st = scenario_store and items = "[public_id example_render ?b]"
      and st' = scenario_store] b scenario_fetch_budgets bid example_render_ids
  have 2: "([public_id example_render ?b] ! 0) ''_id'' = None \<and>
           ([public_id example_render ?b] ! 0) ''id'' = Some (VStr ''oid-1'')"
    by auto
  from t 1 b 2 show ?thesis
    by (intro conjI exI[of _ "[public_id example_render (public_date ?t)]"]
              exI[of _ "[public_id example_render ?b]"]) simp_all
qed

subsection \<open>The month filter of a summary\<close>

lemma month_range_Inr:
  "month_range M = Inr (lo, hi) \<Longrightarrow>
     \<exists>y m. parse_month M = Inr (y, m) \<and> lo = midnight y m 1 \<and>
       hi = (if m = 12 then midnight (y + 1) 1 1 else midnight y (m + 1) 1)"
  by (auto simp: month_range_def datetime_ymd_def split: sum.splits prod.splits if_splits)

lemma matches_date_range: "matches [(''date'', Range lo hi)] d = in_range lo hi (d ''date'')"
  by (simp add: matches_def)

text \<open>
  The interval of a month is the month: a datetime with fields in their ranges lies between
  the first instant of the month and the first instant of the next one (of January of the
  next year, for December) exactly when its year and month are those of the request.
\<close>

lemma in_range_month:
  assumes "1 \<le> m" "m \<le> 12" "1 \<le> dt_month t" "dt_month t \<le> 12" "1 \<le> dt_day t"
    "0 \<le> dt_hour t" "0 \<le> dt_minute t" "0 \<le> dt_second t" "0 \<le> dt_microsecond t"
  shows "in_range (midnight y m 1) (if m = 12 then midnight (y + 1) 1 1 else midnight y (m + 1) 1)
           (Some (VDate t)) \<longleftrightarrow> dt_year t = y \<and> dt_month t = m"
  using assms by (auto simp: in_range_def dt_le_def dt_less_def dt_key_def midnight_def)

text \<open>
  Claim C2. For a non-empty month string \<open>M\<close> that the handler reads as the year \<open>y\<close> and the
  month \<open>m\<close>, the totals and the category breakdown of the returned summary are those of
  exactly the stored transactions whose \<^verbatim>\<open>date\<close> is a datetime \<open>t\<close> with
  \<open>first day of M at midnight \<le> t < first day of the next month at midnight\<close>, the next
  month of December being January of the year \<open>y + 1\<close>. The fetch that applies the filter is
  \<open>get_documents\<close>, modelled from the specification.
\<close>

theorem summary_month_interval:
  assumes "M \<noteq> []" and "summary (Some M) st = (Inr s, st')"
  shows "\<exists>y m. parse_month M = Inr (y, m) \<and>
     aggregate
       (filter
          (\<lambda>d. in_range (midnight y m 1)
                  (if m = 12 then midnight (y + 1) 1 1 else midnight y (m + 1) 1) (d ''date''))
          (collections st ''transaction'')) =
     Inr (income s, expense s, categories s)"
proof -
  from summary_Inr[OF assms(2)] obtain flt where
    flt: "month_filter (Some M) = Inr flt" and
    agg: "aggregate (filter (matches flt) (collections st ''transaction'')) =
            Inr (income s, expense s, categories s)"
    by blast
  from flt assms(1) obtain lo hi where r: "month_range M = Inr (lo, hi)"
    and f: "flt = [(''date'', Range lo hi)]"
    by (auto split: sum.splits)
  from month_range_Inr[OF r] obtain y m where p: "parse_month M = Inr (y, m)"
    and lo: "lo = midnight y m 1"
    and hi: "hi = (if m = 12 then midnight (y + 1) 1 1 else midnight y (m + 1) 1)"
    by blast
  have "matches flt = (\<lambda>d. in_range (midnight y m 1)
                  (if m = 12 then midnight (y + 1) 1 1 else midnight y (m + 1) 1) (d ''date''))"
    unfolding f lo hi by (rule ext) (rule matches_date_range)
  with agg p show ?thesis by auto
qed

text \<open>
  December 2024 in the example state: the transaction of 31 December 2024 is counted, the
  one of 1 January 2025, the first instant after the interval, is not.
\<close>

lemma example_summary_december: "fst (summary (Some ''2024-12'') example_store) =
   Inr \<lparr>income = 0, expense = 15, net = - 15, categories = [(VStr ''gifts'', 15)], budgets = []\<rparr>"
  by code_simp
lemma example_parse_december: "parse_month ''2024-12'' = Inr (2024, 12)" by code_simp

theorem summary_month_interval_witness:
  "parse_month ''2024-12'' = Inr (2024, 12) \<and>
   aggregate
     (filter (\<lambda>d. in_range (midnight 2024 12 1) (midnight 2025 1 1) (d ''date''))
        (collections example_store ''transaction'')) =
   Inr (0, 15, [(VStr ''gifts'', 15)]) \<and>
   filter (\<lambda>d. in_range (midnight 2024 12 1) (midnight 2025 1 1) (d ''date''))
        (collections example_store ''transaction'') =
   [txn_doc 0 15 ''expense'' ''gifts'' (midnight 2024 12 31)]"
proof -
  let ?s = "\<lparr>income = 0, expense = 15, net = - 15, categories = [(VStr ''gifts'', 15)], budgets = []\<rparr>"
  have run: "summary (Some ''2024-12'') example_store =
      (Inr ?s, snd (summary (Some ''2024-12'') example_store))"
    using example_summary_december by (metis prod.collapse)
  have ne: "''2024-12'' \<noteq> []" by simp
  have sel: "filter (\<lambda>d. in_range (midnight 2024 12 1) (midnight 2025 1 1) (d ''date''))
        (collections example_store ''transaction'') =
      [txn_doc 0 15 ''expense'' ''gifts'' (midnight 2024 12 31)]"
    by (simp add: example_store_def example_transactions_def txn_doc_def uncategorised_txn_def
          amountless_txn_def in_range_def dt_le_def dt_less_def dt_key_def midnight_def)
  from summary_month_interval[OF ne run] example_parse_december sel show ?thesis
    by auto
qed

subsection \<open>The stored date of a transaction\<close>

lemma is_digit_cases:
  "is_digit c \<longleftrightarrow> c = CHR ''0'' \<or> c = CHR ''1'' \<or> c = CHR ''2'' \<or> c = CHR ''3'' \<or> c = CHR ''4'' \<or>
     c = CHR ''5'' \<or> c = CHR ''6'' \<or> c = CHR ''7'' \<or> c = CHR ''8'' \<or> c = CHR ''9''"
  by (auto simp: is_digit_def)

lemma digit_val_range: "is_digit c \<Longrightarrow> 0 \<le> digit_val c \<and> digit_val c \<le> 9"
  by (auto simp: is_digit_cases digit_val_def)

lemma is_digit_not_dash: "is_digit c \<Longrightarrow> c \<noteq> CHR ''-''"
  by (auto simp: is_digit_cases)

lemma date_pattern_shape:
  "date_pattern s \<longleftrightarrow>
     (\<exists>a b c d e f g h. s = [a, b, c, d, CHR ''-'', e, f, CHR ''-'', g, h] \<and>
        is_digit a \<and> is_digit b \<and> is_digit c \<and> is_digit d \<and> is_digit e \<and> is_digit f \<and>
        is_digit g \<and> is_digit h)"
proof
  assume "date_pattern s"
  then have len: "length s = 10" by (simp add: date_pattern_def)
  then obtain a b c d p e f q g h where s: "s = [a, b, c, d, p, e, f, q, g, h]"
    by (auto simp: numeral_eq_Suc length_Suc_conv)
  with \<open>date_pattern s\<close> show "\<exists>a b c d e f g h. s = [a, b, c, d, CHR ''-'', e, f, CHR ''-'', g, h] \<and>
        is_digit a \<and> is_digit b \<and> is_digit c \<and> is_digit d \<and> is_digit e \<and> is_digit f \<and>
        is_digit g \<and> is_digit h"
    by (simp add: date_pattern_def)
next
  assume "\<exists>a b c d e f g h. s = [a, b, c, d, CHR ''-'', e, f, CHR ''-'', g, h] \<and>
        is_digit a \<and> is_digit b \<and> is_digit c \<and> is_digit d \<and> is_digit e \<and> is_digit f \<and>
        is_digit g \<and> is_digit h"
  then show "date_pattern s"
    by (auto simp: date_pattern_def)
qed

lemma strptime_month_two_digits:
  assumes "is_digit e" "is_digit f"
  shows "strptime_month (e # f # CHR ''-'' # r) =
     (if 1 \<le> digits_value [e, f] \<and> digits_value [e, f] \<le> 12
      then Some (digits_value [e, f], CHR ''-'' # r)
      else if e = CHR ''0'' then None
      else Some (digits_value [e], f # CHR ''-'' # r))"
  using assms by (auto simp: is_digit_cases digits_value_def digit_val_def)

lemma strptime_day_two_digits:
  assumes "is_digit g" "is_digit h"
  shows "strptime_day [g, h] =
     (if 1 \<le> digits_value [g, h] \<and> digits_value [g, h] \<le> 31
      then Some (digits_value [g, h], [])
      else if g = CHR ''0'' then None
      else Some (digits_value [g], [h]))"
  using assms by (auto simp: is_digit_cases digits_value_def digit_val_def is_digit_def)

lemma strptime_ymd_pattern:
  assumes "is_digit a" "is_digit b" "is_digit c" "is_digit d" "is_digit e" "is_digit f"
    "is_digit g" "is_digit h"
  shows "strptime_ymd [a, b, c, d, CHR ''-'', e, f, CHR ''-'', g, h] =
     (if 1 \<le> digits_value [e, f] \<and> digits_value [e, f] \<le> 12 \<and>
         1 \<le> digits_value [g, h] \<and> digits_value [g, h] \<le> 31
      then datetime_ymd (digits_value [a, b, c, d]) (digits_value [e, f]) (digits_value [g, h])
      else Inl (StrptimeError [a, b, c, d, CHR ''-'', e, f, CHR ''-'', g, h]))"
proof -
  have nd: "f \<noteq> CHR ''-''" "h \<noteq> CHR ''-''"
    using assms by (auto dest: is_digit_not_dash)
  show ?thesis
    unfolding strptime_ymd_def
    using assms nd
    by (simp add: strptime_month_two_digits strptime_day_two_digits
          del: strptime_month.simps strptime_day.simps)
qed

lemma digits_value4_range:
  assumes "is_digit a" "is_digit b" "is_digit c" "is_digit d"
  shows "0 \<le> digits_value [a, b, c, d] \<and> digits_value [a, b, c, d] \<le> 9999"
  using assms[THEN digit_val_range] by (simp add: digits_value_def)

lemma days_in_month_le: "days_in_month y m \<le> 31"
  by (simp add: days_in_month_def)

text \<open>
  On a string of the pattern, the conversion succeeds exactly when the three numbers are a
  date of the calendar.
\<close>

lemma strptime_ymd_pattern_result:
  assumes "date_pattern s"
  shows "strptime_ymd s =
     (if 1 \<le> digits_value (take 4 s) \<and>
         1 \<le> digits_value (take 2 (drop 5 s)) \<and> digits_value (take 2 (drop 5 s)) \<le> 12 \<and>
         1 \<le> digits_value (drop 8 s) \<and>
         digits_value (drop 8 s) \<le>
           days_in_month (digits_value (take 4 s)) (digits_value (take 2 (drop 5 s)))
      then Inr (midnight (digits_value (take 4 s)) (digits_value (take 2 (drop 5 s)))
                  (digits_value (drop 8 s)))
      else Inl (projl (strptime_ymd s)))"
proof -
  from assms obtain a b c d e f g h where s: "s = [a, b, c, d, CHR ''-'', e, f, CHR ''-'', g, h]"
    and dg: "is_digit a" "is_digit b" "is_digit c" "is_digit d" "is_digit e" "is_digit f"
      "is_digit g" "is_digit h"
    unfolding date_pattern_shape by blast
  have y: "digits_value [a, b, c, d] \<le> 9999"
    using digits_value4_range[OF dg(1-4)] by simp
  have dim: "days_in_month (digits_value [a, b, c, d]) (digits_value [e, f]) \<le> 31"
    by (rule days_in_month_le)
  show ?thesis
    unfolding s strptime_ymd_pattern[OF dg]
    using y dim by (auto simp: datetime_ymd_def)
qed

lemma stored_transaction_date:
  assumes "date_pattern (date txn)"
  shows "stored_transaction txn ''date'' =
     Some (let y = digits_value (take 4 (date txn)); m = digits_value (take 2 (drop 5 (date txn)));
               d = digits_value (drop 8 (date txn))
           in if 1 \<le> y \<and> 1 \<le> m \<and> m \<le> 12 \<and> 1 \<le> d \<and> d \<le> days_in_month y m
              then VDate (midnight y m d)
              else VStr (date txn))"
  unfolding stored_transaction_def
  by (subst strptime_ymd_pattern_result[OF assms])
     (auto simp: Let_def model_dump_def split: sum.splits)

text \<open>
  Claim C5, as stated, fails: the pattern of the schema accepts strings that are no date of
  the calendar, the conversion of line 68 raises for them, and \<^verbatim>\<open>except Exception: pass\<close>
  keeps the string. The body below is accepted and stored with the string \<^verbatim>\<open>2025-02-30\<close> as
  its date, not with a timestamp.
\<close>

theorem unreal_date_stays_string:
  "Transaction_valid unreal_date_txn \<and>
   map (\<lambda>d. d ''date'') (collections (snd (post_transaction unreal_date_txn empty_store)) ''transaction'') =
     [Some (VStr ''2025-02-30'')]"
  by code_simp

text \<open>
  Claim C5, amended. For every transaction that POST \<^verbatim>\<open>/api/transactions\<close> accepts, when the
  store can be reached, one document is appended to the collection; its \<^verbatim>\<open>date\<close> is the
  timestamp at midnight of the day \<open>y-m-d\<close> that the string names when that day exists
  (\<open>1 \<le> y\<close>, \<open>1 \<le> m \<le> 12\<close>, \<open>1 \<le> d \<le>\<close> the days of the month), and the unchanged string when
  it does not.
\<close>

theorem post_transaction_stored_date:
  assumes "Transaction_valid txn" and "fst (reach st) = None"
  shows "\<exists>doc. collections (snd (post_transaction txn st)) ''transaction'' =
             collections st ''transaction'' @ [doc] \<and>
     doc ''date'' =
       Some (let y = digits_value (take 4 (date txn)); m = digits_value (take 2 (drop 5 (date txn)));
                 d = digits_value (drop 8 (date txn))
             in if 1 \<le> y \<and> 1 \<le> m \<and> m \<le> 12 \<and> 1 \<le> d \<and> d \<le> days_in_month y m
                then VDate (midnight y m d)
                else VStr (date txn))"
proof -
  from assms(1) have pat: "date_pattern (date txn)"
    by (simp add: Transaction_valid_def)
  obtain st1 where r: "reach st = (None, st1)"
    using assms(2) by (cases "reach st") auto
  then have c: "collections st1 = collections st"
    by (auto dest: reach_collections)
  have "collections (snd (post_transaction txn st)) ''transaction'' =
      collections st ''transaction'' @ [(stored_transaction txn)(''_id'' \<mapsto> VOid (next_id st1))]"
    using assms(1) r c
    by (simp add: post_transaction_def add_transaction_def create_document_def server_error_def Let_def)
  moreover have "((stored_transaction txn)(''_id'' \<mapsto> VOid (next_id st1))) ''date'' =
      stored_transaction txn ''date''"
    by simp
  ultimately show ?thesis
    using stored_transaction_date[OF pat] by auto
qed

lemma scenario_txn_valid: "Transaction_valid scenario_txn" by code_simp
lemma empty_store_reachable: "fst (reach empty_store) = None" by code_simp
lemma scenario_txn_numbers: "digits_value (take 4 (date scenario_txn)) = 2025 \<and>
   digits_value (take 2 (drop 5 (date scenario_txn))) = 1 \<and> digits_value (drop 8 (date scenario_txn)) = 5 \<and>
   days_in_month 2025 1 = 31"
  by code_simp

theorem post_transaction_stored_date_witness:
  "\<exists>doc. collections (snd (post_transaction scenario_txn empty_store)) ''transaction'' = [doc] \<and>
         doc ''date'' = Some (VDate (midnight 2025 1 5))"
proof -
  have "collections empty_store ''transaction'' = []"
    by (simp add: empty_store_def)
  with post_transaction_stored_date[OF scenario_txn_valid empty_store_reachable] scenario_txn_numbers show ?thesis
    by (auto simp: Let_def)
qed

text \<open>
  The transaction of the scenario state is the document that POST \<^verbatim>\<open>/api/transactions\<close> stores
  for the body of the scenario.
\<close>

lemma scenario_txn_date: "strptime_ymd (date scenario_txn) = Inr (midnight 2025 1 5)"
  by code_simp

lemma scenario_txn_stored:
  "(stored_transaction scenario_txn)(''_id'' \<mapsto> VOid 0) =
     txn_doc 0 50 ''expense'' ''groceries'' (midnight 2025 1 5)"
  unfolding stored_transaction_def scenario_txn_date
  by (auto simp: fun_eq_iff model_dump_def txn_doc_def scenario_txn_def)

lemma scenario_store_posted:
  "collections (snd (post_transaction scenario_txn empty_store)) ''transaction'' =
     collections scenario_store ''transaction''"
  using scenario_txn_stored
  by (simp add: post_transaction_def add_transaction_def create_document_def server_error_def
        reach_def empty_store_def scenario_store_def scenario_txn_valid)

subsection \<open>The lines of the budget reply\<close>

text \<open>\<^verbatim>\<open>sub in s\<close> holds exactly when \<open>s\<close> is some text, \<open>sub\<close>, and some more text.\<close>

lemma take_length_eq_iff: "take (length sub) s = sub \<longleftrightarrow> (\<exists>q. s = sub @ q)"
  by (metis append_eq_conv_conj append_take_drop_id)

lemma contains_iff: "contains sub s \<longleftrightarrow> (\<exists>p q. s = p @ sub @ q)"
proof (induction s)
  case Nil
  then show ?case by auto
next
  case (Cons c cs)
  show ?case
  proof
    assume "contains sub (c # cs)"
    then consider "take (length sub) (c # cs) = sub" | "contains sub cs" by auto
    then show "\<exists>p q. c # cs = p @ sub @ q"
    proof cases
      case 1
      then obtain q where "c # cs = sub @ q" using take_length_eq_iff by blast
      then have "c # cs = [] @ sub @ q" by simp
      then show ?thesis by blast
    next
      case 2
      with Cons.IH obtain p q where "cs = p @ sub @ q" by blast
      then have "c # cs = (c # p) @ sub @ q" by simp
      then show ?thesis by blast
    qed
  next
    assume "\<exists>p q. c # cs = p @ sub @ q"
    then obtain p q where e: "c # cs = p @ sub @ q" by blast
    show "contains sub (c # cs)"
    proof (cases p)
      case Nil
      with e have "take (length sub) (c # cs) = sub" by (simp add: take_length_eq_iff)
      then show ?thesis by simp
    next
      case (Cons x p')
      with e have "cs = p' @ sub @ q" by simp
      with Cons.IH show ?thesis by auto
    qed
  qed
qed

lemma contains_join: "x \<in> set xs \<Longrightarrow> contains x (join sep xs)"
proof (induction sep xs rule: join.induct)
  case (1 sep)
  then show ?case by simp
next
  case (2 sep p)
  then have "p = [] @ x @ []" by simp
  then show ?case unfolding contains_iff join.simps by blast
next
  case (3 sep p q ps)
  show ?case
  proof (cases "x = p")
    case True
    then have "join sep (p # q # ps) = [] @ x @ (sep @ join sep (q # ps))" by simp
    then show ?thesis unfolding contains_iff by blast
  next
    case False
    with 3 have "contains x (join sep (q # ps))" by auto
    then obtain a b where "join sep (q # ps) = a @ x @ b" unfolding contains_iff by blast
    then have "join sep (p # q # ps) = (p @ sep @ a) @ x @ b" by simp
    then show ?thesis unfolding contains_iff by blast
  qed
qed

lemma budget_lines_numeric:
  assumes "\<forall>entry \<in> set bs. \<exists>l. snd entry = VNum l"
  shows "\<exists>body. budget_lines render cats bs = Inr body \<and>
     (\<forall>cat l. (cat, VNum l) \<in> set bs \<longrightarrow>
        ''- '' @ py_str render cat @ '': $'' @ fmt2f (dict_get cats cat 0) @ '' / $'' @ fmt2f l @
        '' ('' @ (if l < dict_get cats cat 0 then ''over'' else ''under'') @ '')'' \<in> set body)"
  using assms
proof (induction bs)
  case Nil
  then show ?case by simp
next
  case (Cons entry bs)
  then obtain body where b: "budget_lines render cats bs = Inr body"
    and m: "\<forall>cat l. (cat, VNum l) \<in> set bs \<longrightarrow>
        ''- '' @ py_str render cat @ '': $'' @ fmt2f (dict_get cats cat 0) @ '' / $'' @ fmt2f l @
        '' ('' @ (if l < dict_get cats cat 0 then ''over'' else ''under'') @ '')'' \<in> set body"
    by auto
  obtain c l0 where e: "entry = (c, VNum l0)"
    using Cons.prems by (cases entry) auto
  show ?case
    using b m e by (auto simp: budget_line_def Let_def)
qed

text \<open>
  Claim C1, as stated, fails. Line 187 writes a budget as
  \<^verbatim>\<open>- <category>: $<spent> / $<limit> (over|under)\<close>, with a dash in front, dollar signs and
  blanks around the slash: in the state of the scenario the reply is the two lines below, and
  the text \<^verbatim>\<open>groceries: 50.00/40.00 (over)\<close> does not occur in it. And the amount of the line
  is what the summary of the month gives the category, not the amount of one transaction: a
  state that holds the transaction and the budget of the scenario and one more expense on
  groceries answers with 75.00.
\<close>

theorem budget_reply_format_counterexample:
  "fst (chat example_render \<lparr>message = ''how is my budget?'', month = Some ''2025-01''\<rparr>
          scenario_store) =
     Inr (''Budgets:'' @ [CHR 0x0A] @ ''- groceries: $50.00 / $40.00 (over)'',
          \<lparr>income = 0, expense = 50, net = - 50, categories = [(VStr ''groceries'', 50)],
           budgets = [(VStr ''groceries'', VNum 40)]\<rparr>) \<and>
   contains ''groceries: 50.00/40.00 (over)''
     (''Budgets:'' @ [CHR 0x0A] @ ''- groceries: $50.00 / $40.00 (over)'') = False \<and>
   fst (chat example_render \<lparr>message = ''how is my budget?'', month = Some ''2025-01''\<rparr>
          busy_store) =
     Inr (''Budgets:'' @ [CHR 0x0A] @ ''- groceries: $75.00 / $40.00 (over)'',
          \<lparr>income = 0, expense = 75, net = - 75, categories = [(VStr ''groceries'', 75)],
           budgets = [(VStr ''groceries'', VNum 40)]\<rparr>)"
  by code_simp

text \<open>
  Claim C1, amended. Let the message ask for the budget (it contains \<^verbatim>\<open>budget\<close> and none of
  \<^verbatim>\<open>spend\<close>, \<^verbatim>\<open>expense\<close>, \<^verbatim>\<open>income\<close>), let the summary of the requested month be returned with
  numbers as all its limits, and let it give the category \<open>cat\<close> the limit \<open>l\<close> and the
  amount \<open>spent\<close> (0 when the category has no expense). Then the reply is \<^verbatim>\<open>Budgets:\<close>
  followed by one line for each budget, and the line
  \<^verbatim>\<open>- cat: $spent / $l (over)\<close>, or \<^verbatim>\<open>(under)\<close>, is among them, both numbers with two
  decimals; it says \<^verbatim>\<open>over\<close> exactly when \<open>spent\<close> is greater than \<open>l\<close>. In the state of the
  scenario the line is \<^verbatim>\<open>- groceries: $50.00 / $40.00 (over)\<close>.
\<close>

theorem chat_budget_line:
  assumes "summary (month req) st = (Inr s, st1)"
    and "\<not> contains ''spend'' (lower (message req))"
    and "\<not> contains ''expense'' (lower (message req))"
    and "\<not> contains ''income'' (lower (message req))"
    and "contains ''budget'' (lower (message req))"
    and "\<forall>entry \<in> set (budgets s). \<exists>l'. snd entry = VNum l'"
    and "(VStr cat, VNum l) \<in> set (budgets s)"
    and "spent = dict_get (categories s) (VStr cat) 0"
  shows "\<exists>body. fst (chat render req st) = Inr (join [CHR 0x0A] (''Budgets:'' # body), s) \<and>
     ''- '' @ cat @ '': $'' @ fmt2f spent @ '' / $'' @ fmt2f l @
       '' ('' @ (if l < spent then ''over'' else ''under'') @ '')'' \<in> set body \<and>
     contains (''- '' @ cat @ '': $'' @ fmt2f spent @ '' / $'' @ fmt2f l @
       '' ('' @ (if l < spent then ''over'' else ''under'') @ '')'')
       (join [CHR 0x0A] (''Budgets:'' # body))"
proof -
  let ?line = "''- '' @ cat @ '': $'' @ fmt2f spent @ '' / $'' @ fmt2f l @
       '' ('' @ (if l < spent then ''over'' else ''under'') @ '')''"
  from budget_lines_numeric[OF assms(6), of render "categories s"] obtain body where
    b: "budget_lines render (categories s) (budgets s) = Inr body" and
    m: "\<forall>cat l. (cat, VNum l) \<in> set (budgets s) \<longrightarrow>
        ''- '' @ py_str render cat @ '': $'' @ fmt2f (dict_get (categories s) cat 0) @ '' / $'' @ fmt2f l @
        '' ('' @ (if l < dict_get (categories s) cat 0 then ''over'' else ''under'') @ '')'' \<in> set body"
    by blast
  have "py_str render (VStr cat) = cat"
    by (simp add: py_str_def)
  with m[rule_format, OF assms(7)] assms(8) have line: "?line \<in> set body"
    by simp
  then have ne: "body \<noteq> []" by auto
  have reply: "fst (chat render req st) = Inr (join [CHR 0x0A] (''Budgets:'' # body), s)"
    using assms(1-5) b ne
    by (simp add: chat_def chat_body_def make_reply_def budget_reply_def server_error_def)
  from line have "contains ?line (join [CHR 0x0A] (''Budgets:'' # body))"
    by (intro contains_join) simp
  with reply line show ?thesis by blast
qed

lemma scenario_summary_january: "fst (summary (Some ''2025-01'') scenario_store) =
   Inr \<lparr>income = 0, expense = 50, net = - 50, categories = [(VStr ''groceries'', 50)],
        budgets = [(VStr ''groceries'', VNum 40)]\<rparr>"
  by code_simp

lemma example_budget_message: "contains ''spend'' (lower ''how is my budget?'') = False \<and>
   contains ''expense'' (lower ''how is my budget?'') = False \<and>
   contains ''income'' (lower ''how is my budget?'') = False \<and>
   contains ''budget'' (lower ''how is my budget?'') = True"
  by code_simp

lemma example_fmt2f: "fmt2f 50 = ''50.00'' \<and> fmt2f 40 = ''40.00''"
  by code_simp

theorem chat_budget_line_witness:
  "\<exists>body. fst (chat example_render \<lparr>message = ''how is my budget?'', month = Some ''2025-01''\<rparr>
               scenario_store) =
      Inr (join [CHR 0x0A] (''Budgets:'' # body),
           \<lparr>income = 0, expense = 50, net = - 50, categories = [(VStr ''groceries'', 50)],
            budgets = [(VStr ''groceries'', VNum 40)]\<rparr>) \<and>
      ''- groceries: $50.00 / $40.00 (over)'' \<in> set body \<and>
      contains ''- groceries: $50.00 / $40.00 (over)'' (join [CHR 0x0A] (''Budgets:'' # body))"
proof -
  let ?s = "\<lparr>income = 0, expense = 50, net = - 50, categories = [(VStr ''groceries'', 50)],
            budgets = [(VStr ''groceries'', VNum 40)]\<rparr>"
  let ?req = "\<lparr>message = ''how is my budget?'', month = Some ''2025-01''\<rparr>"
  have run: "summary (month ?req) scenario_store =
      (Inr ?s, snd (summary (Some ''2025-01'') scenario_store))"
    using scenario_summary_january by (simp add: prod_eq_iff)
  have msg: "\<not> contains ''spend'' (lower (message ?req))" "\<not> contains ''expense'' (lower (message ?req))"
    "\<not> contains ''income'' (lower (message ?req))" "contains ''budget'' (lower (message ?req))"
    using example_budget_message by simp_all
  have num: "\<forall>entry \<in> set (budgets ?s). \<exists>l'. snd entry = VNum l'" by simp
  have mem: "(VStr ''groceries'', VNum 40) \<in> set (budgets ?s)" by simp
  have sp: "(50::rat) = dict_get (categories ?s) (VStr ''groceries'') 0" by (simp add: dict_get_def)
  from chat_budget_line[OF run msg num mem sp, of example_render] example_fmt2f show ?thesis
    by simp
qed

end
